theory Spec2Isabelle
  imports Complex_Main "HOL-Library.Monad_Syntax"
begin

section \<open>Numbers, arrays and JavaScript values\<close>

text \<open>
  The simulation engine exists twice: in the standalone server
  (\<^verbatim>\<open>backend/server.js\<close>, the part that was \<^verbatim>\<open>simulation.js\<close>) and in the
  serverless bundle (\<^verbatim>\<open>worker/src/index.js\<close>). Both copies are embedded here.
  A constant named as in the source is the server's copy; the worker's copy of the
  same function carries the suffix \<open>_w\<close>.

  A finite JavaScript number is a \<^typ>\<open>real\<close>: arithmetic is exact, rounding,
  overflow and the infinities are outside the model. Where the source reads an array
  out of range it obtains \<^verbatim>\<open>undefined\<close>, and arithmetic on it yields \<^verbatim>\<open>NaN\<close>;
  both are the value \<open>None\<close> of the type \<open>num\<close>. Every comparison with
  \<^verbatim>\<open>NaN\<close> is false and every arithmetic operation on it yields \<^verbatim>\<open>NaN\<close>, which
  is what \<open>Option.bind\<close> does with \<open>None\<close>.
\<close>

type_synonym num = "real option"

definition at_index :: "real list \<Rightarrow> int \<Rightarrow> num" where
  \<comment> \<open>\<^verbatim>\<open>arr[i]\<close> for an integral index: \<^verbatim>\<open>undefined\<close> outside \<open>0 .. length - 1\<close>\<close>
  "at_index arr i = (if 0 \<le> i \<and> i < int (length arr) then Some (arr ! nat i) else None)"

text \<open>
  \<^verbatim>\<open>[...arr].sort((a, b) => a - b)\<close> sorts numbers ascending; on reals the result is
  the unique ascending rearrangement, \<^const>\<open>sort\<close>.
\<close>

section \<open>Robust statistics (server copy)\<close>

definition median :: "real list \<Rightarrow> num" where
  "median arr =
     (let sorted = sort arr;
          mid = int (length sorted) div 2
      in if length sorted mod 2 \<noteq> 0 then at_index sorted mid
         else do { a \<leftarrow> at_index sorted (mid - 1);
                   b \<leftarrow> at_index sorted mid;
                   Some ((a + b) / 2) })"

definition mad :: "real list \<Rightarrow> num" where
  "mad arr =
     do { med \<leftarrow> median arr;
          let deviations = map (\<lambda>x. \<bar>x - med\<bar>) arr;
          median deviations }"

definition madSigma :: "real list \<Rightarrow> num" where
  "madSigma arr = do { m \<leftarrow> mad arr; Some (m * 1.4826) }"

definition iqrSigma :: "real list \<Rightarrow> num" where
  "iqrSigma arr =
     (let sorted = sort arr;
          q1 = at_index sorted \<lfloor>real (length sorted) * 0.25\<rfloor>;
          q3 = at_index sorted \<lfloor>real (length sorted) * 0.75\<rfloor>
      in do { b \<leftarrow> q3; a \<leftarrow> q1; Some ((b - a) / 1.349) })"

definition robustSigma :: "real list \<Rightarrow> num" where
  "robustSigma arr =
     (let s1 = madSigma arr;
          s2 = iqrSigma arr
      in do { a \<leftarrow> s1; b \<leftarrow> s2; Some (min a b) })"

definition percentile :: "real list \<Rightarrow> real \<Rightarrow> num" where
  "percentile arr p =
     (let sorted = sort arr;
          idx = (p / 100) * (real (length sorted) - 1);
          lower = \<lfloor>idx\<rfloor>;
          upper = \<lceil>idx\<rceil>
      in if lower = upper then at_index sorted lower
         else do { lo \<leftarrow> at_index sorted lower;
                   hi \<leftarrow> at_index sorted upper;
                   Some (lo + (hi - lo) * (idx - real_of_int lower)) })"

section \<open>Robust statistics (worker copy)\<close>

definition median_w :: "real list \<Rightarrow> num" where
  "median_w arr =
     (let sorted = sort arr;
          mid = int (length sorted) div 2
      in if length sorted mod 2 \<noteq> 0 then at_index sorted mid
         else do { a \<leftarrow> at_index sorted (mid - 1);
                   b \<leftarrow> at_index sorted mid;
                   Some ((a + b) / 2) })"

definition mad_w :: "real list \<Rightarrow> num" where
  "mad_w arr =
     do { med \<leftarrow> median_w arr;
          median_w (map (\<lambda>x. \<bar>x - med\<bar>) arr) }"

definition madSigma_w :: "real list \<Rightarrow> num" where
  "madSigma_w arr = do { m \<leftarrow> mad_w arr; Some (m * 1.4826) }"

definition iqrSigma_w :: "real list \<Rightarrow> num" where
  "iqrSigma_w arr =
     (let sorted = sort arr;
          q1 = at_index sorted \<lfloor>real (length sorted) * 0.25\<rfloor>;
          q3 = at_index sorted \<lfloor>real (length sorted) * 0.75\<rfloor>
      in do { b \<leftarrow> q3; a \<leftarrow> q1; Some ((b - a) / 1.349) })"

definition robustSigma_w :: "real list \<Rightarrow> num" where
  "robustSigma_w arr = do { a \<leftarrow> madSigma_w arr; b \<leftarrow> iqrSigma_w arr; Some (min a b) }"

definition percentile_w :: "real list \<Rightarrow> real \<Rightarrow> num" where
  "percentile_w arr p =
     (let sorted = sort arr;
          idx = (p / 100) * (real (length sorted) - 1);
          lo = \<lfloor>idx\<rfloor>;
          hi = \<lceil>idx\<rceil>
      in if lo = hi then at_index sorted lo
         else do { l \<leftarrow> at_index sorted lo;
                   h \<leftarrow> at_index sorted hi;
                   Some (l + (h - l) * (idx - real_of_int lo)) })"

section \<open>Distribution estimators\<close>

text \<open>
  The \<^verbatim>\<open>eps\<close> field of a history entry is a number, \<^verbatim>\<open>null\<close> or
  \<^verbatim>\<open>undefined\<close>; the source tests for the latter two. The history itself may be
  \<^verbatim>\<open>null\<close> or \<^verbatim>\<open>undefined\<close> (\<open>None\<close>); an array is truthy even when empty.
\<close>

datatype jsval = Undefined | Null | Num real

record eps_entry =
  date :: string
  eps :: jsval
  year :: int

record growth_dist =
  meanGrowth :: num
  sigmaGrowth :: num
  growthRates :: "real list"
  dataPoints :: nat
  warning :: "string option"

record pe_dist =
  meanPE :: num
  sigmaPE :: num
  peValues :: "real list"
  pe_dataPoints :: nat
  pe_warning :: "string option"

fun gt_zero :: "jsval \<Rightarrow> bool" where
  \<comment> \<open>\<^verbatim>\<open>v > 0\<close>: \<^verbatim>\<open>null\<close> converts to 0 and \<^verbatim>\<open>undefined\<close> to \<^verbatim>\<open>NaN\<close>\<close>
  "gt_zero (Num x) = (x > 0)"
| "gt_zero Null = False"
| "gt_zero Undefined = False"

fun loose_ne_null :: "jsval \<Rightarrow> bool" where
  \<comment> \<open>\<^verbatim>\<open>v != null\<close>: loose equality identifies \<^verbatim>\<open>null\<close> and \<^verbatim>\<open>undefined\<close>\<close>
  "loose_ne_null (Num x) = True"
| "loose_ne_null Null = False"
| "loose_ne_null Undefined = False"

fun growth_rate :: "jsval \<Rightarrow> jsval \<Rightarrow> real list" where
  \<comment> \<open>\<^verbatim>\<open>(curr - prev) / Math.abs(prev)\<close>, as the one-element list pushed; the source
      evaluates it only under a guard that makes both operands numbers\<close>
  "growth_rate (Num c) (Num p) = [(c - p) / \<bar>p\<bar>]"
| "growth_rate _ _ = []"

function collect_growth :: "eps_entry list \<Rightarrow> nat \<Rightarrow> real list \<Rightarrow> real list" where
  \<comment> \<open>the \<^verbatim>\<open>for (let i = 1; i < epsHistory.length; i++)\<close> loop of the server\<close>
  "collect_growth epsHistory i rates =
     (if i < length epsHistory
      then let prev = eps (epsHistory ! (i - 1));
               curr = eps (epsHistory ! i)
           in collect_growth epsHistory (i + 1)
                (if gt_zero prev \<and> curr \<noteq> Null \<and> curr \<noteq> Undefined
                 then rates @ growth_rate curr prev
                 else rates)
      else rates)"
  by pat_completeness auto
termination
  by (relation "measure (\<lambda>(h, i, r). length h - i)") auto

function collect_growth_w :: "eps_entry list \<Rightarrow> nat \<Rightarrow> real list \<Rightarrow> real list" where
  \<comment> \<open>the same loop in the worker\<close>
  "collect_growth_w epsHistory i rates =
     (if i < length epsHistory
      then let prev = eps (epsHistory ! (i - 1));
               curr = eps (epsHistory ! i)
           in collect_growth_w epsHistory (i + 1)
                (if gt_zero prev \<and> loose_ne_null curr
                 then rates @ growth_rate curr prev
                 else rates)
      else rates)"
  by pat_completeness auto
termination
  by (relation "measure (\<lambda>(h, i, r). length h - i)") auto

declare collect_growth.simps [simp del] collect_growth_w.simps [simp del]

text \<open>
  \<^verbatim>\<open>Number.prototype.toFixed\<close> is a builtin of the host; the estimators use it only
  inside the text of a warning. It is the parameter \<open>toFixed\<close>. The sign
  \<^verbatim>\<open>U+00B1\<close> in two messages is its two UTF-8 bytes.
\<close>

definition plus_minus :: string where
  "plus_minus = [CHR 0xC2, CHR 0xB1]"

text \<open>The message texts of the source, named so that terms stay readable.\<close>

definition msg_insufficient_eps :: string where
  "msg_insufficient_eps =
     ''Insufficient EPS history. Using default growth assumptions (10% '' @ plus_minus @ '' 15%).''"

definition msg_too_few_growth :: string where
  "msg_too_few_growth = ''Too few valid growth data points. Using default assumptions.''"

definition msg_growth_floored :: "(real \<Rightarrow> nat \<Rightarrow> string) \<Rightarrow> real \<Rightarrow> real \<Rightarrow> string" where
  "msg_growth_floored toFixed computed floor_value =
     ''Computed growth volatility ('' @ toFixed (computed * 100) 1
       @ ''%) was too low; floored to '' @ toFixed (floor_value * 100) 0 @ ''%.''"

definition msg_insufficient_pe :: string where
  "msg_insufficient_pe =
     ''Insufficient P/E history. Using default P/E assumptions (25 '' @ plus_minus @ '' 8).''"

definition msg_too_few_pe :: string where
  "msg_too_few_pe = ''Too few valid P/E data points. Using default assumptions.''"

definition msg_pe_floored :: "(real \<Rightarrow> nat \<Rightarrow> string) \<Rightarrow> real \<Rightarrow> string" where
  \<comment> \<open>\<^verbatim>\<open>${MIN_SIGMA_PE}\<close> prints the number 3.0 as \<^verbatim>\<open>3\<close>\<close>
  "msg_pe_floored toFixed computed =
     ''Computed P/E volatility ('' @ toFixed computed 1 @ '') was too low; floored to 3.''"

definition computeEPSGrowthDistribution ::
  "(real \<Rightarrow> nat \<Rightarrow> string) \<Rightarrow> eps_entry list option \<Rightarrow> growth_dist" where
  "computeEPSGrowthDistribution toFixed epsHistory =
     (let insufficient =
        \<lparr>meanGrowth = Some 0.10, sigmaGrowth = Some 0.15, growthRates = [], dataPoints = 0,
         warning = Some msg_insufficient_eps\<rparr>
      in case epsHistory of
        None \<Rightarrow> insufficient
      | Some h \<Rightarrow>
          if length h < 2 then insufficient
          else
            let rates = collect_growth h 1 [] in
            if length rates < 2 then
              \<lparr>meanGrowth = Some 0.10, sigmaGrowth = Some 0.15, growthRates = rates,
               dataPoints = length rates,
               warning = Some msg_too_few_growth\<rparr>
            else
              let computedSigma = robustSigma rates;
                  MIN_SIGMA_GROWTH = 0.10;
                  sigmaGrowthFinal = do { c \<leftarrow> computedSigma; Some (max c MIN_SIGMA_GROWTH) };
                  sigmaWarning =
                    (case computedSigma of
                       None \<Rightarrow> None
                     | Some c \<Rightarrow>
                         if c < MIN_SIGMA_GROWTH
                         then Some (msg_growth_floored toFixed c MIN_SIGMA_GROWTH)
                         else None)
              in \<lparr>meanGrowth = median rates, sigmaGrowth = sigmaGrowthFinal,
                  growthRates = rates, dataPoints = length rates, warning = sigmaWarning\<rparr>)"

definition computeEPSGrowthDistribution_w ::
  "(real \<Rightarrow> nat \<Rightarrow> string) \<Rightarrow> eps_entry list option \<Rightarrow> growth_dist" where
  "computeEPSGrowthDistribution_w toFixed epsHistory =
     (let insufficient =
        \<lparr>meanGrowth = Some 0.10, sigmaGrowth = Some 0.15, growthRates = [], dataPoints = 0,
         warning = Some msg_insufficient_eps\<rparr>
      in case epsHistory of
        None \<Rightarrow> insufficient
      | Some h \<Rightarrow>
          if length h < 2 then insufficient
          else
            let rates = collect_growth_w h 1 [] in
            if length rates < 2 then
              \<lparr>meanGrowth = Some 0.10, sigmaGrowth = Some 0.15, growthRates = rates,
               dataPoints = length rates,
               warning = Some msg_too_few_growth\<rparr>
            else
              let computed = robustSigma_w rates;
                  MIN0 = 0.10;  \<comment> \<open>the constant \<^verbatim>\<open>MIN\<close>\<close>
                  sigma = do { c \<leftarrow> computed; Some (max c MIN0) }
              in \<lparr>meanGrowth = median_w rates, sigmaGrowth = sigma,
                  growthRates = rates, dataPoints = length rates,
                  warning =
                    (case computed of
                       None \<Rightarrow> None
                     | Some c \<Rightarrow>
                         if c < MIN0
                         then Some (msg_growth_floored toFixed c MIN0)
                         else None)\<rparr>)"

definition computePEDistribution ::
  "(real \<Rightarrow> nat \<Rightarrow> string) \<Rightarrow> real list option \<Rightarrow> pe_dist" where
  "computePEDistribution toFixed peHistory =
     (let insufficient =
        \<lparr>meanPE = Some 25, sigmaPE = Some 8, peValues = [], pe_dataPoints = 0,
         pe_warning = Some msg_insufficient_pe\<rparr>
      in case peHistory of
        None \<Rightarrow> insufficient
      | Some h \<Rightarrow>
          if length h < 3 then insufficient
          else
            let validPEs = filter (\<lambda>pe. pe > 0 \<and> pe < 200) h in
            if length validPEs < 3 then
              \<lparr>meanPE = Some 25, sigmaPE = Some 8, peValues = validPEs,
               pe_dataPoints = length validPEs,
               pe_warning = Some msg_too_few_pe\<rparr>
            else
              let computedPESigma = robustSigma validPEs;
                  MIN_SIGMA_PE = 3.0;
                  sigmaPEFinal = do { c \<leftarrow> computedPESigma; Some (max c MIN_SIGMA_PE) }
              in \<lparr>meanPE = median validPEs, sigmaPE = sigmaPEFinal, peValues = validPEs,
                  pe_dataPoints = length validPEs,
                  pe_warning =
                    (case computedPESigma of
                       None \<Rightarrow> None
                     | Some c \<Rightarrow>
                         if c < MIN_SIGMA_PE
                         then Some (msg_pe_floored toFixed c)
                         else None)\<rparr>)"

definition computePEDistribution_w ::
  "(real \<Rightarrow> nat \<Rightarrow> string) \<Rightarrow> real list option \<Rightarrow> pe_dist" where
  "computePEDistribution_w toFixed peHistory =
     (let insufficient =
        \<lparr>meanPE = Some 25, sigmaPE = Some 8, peValues = [], pe_dataPoints = 0,
         pe_warning = Some msg_insufficient_pe\<rparr>
      in case peHistory of
        None \<Rightarrow> insufficient
      | Some h \<Rightarrow>
          if length h < 3 then insufficient
          else
            let valid = filter (\<lambda>pe. pe > 0 \<and> pe < 200) h in
            if length valid < 3 then
              \<lparr>meanPE = Some 25, sigmaPE = Some 8, peValues = valid,
               pe_dataPoints = length valid,
               pe_warning = Some msg_too_few_pe\<rparr>
            else
              let computed = robustSigma_w valid;
                  MIN_PE = 3.0
              in \<lparr>meanPE = median_w valid,
                  sigmaPE = do { c \<leftarrow> computed; Some (max c MIN_PE) },
                  peValues = valid, pe_dataPoints = length valid,
                  pe_warning =
                    (case computed of
                       None \<Rightarrow> None
                     | Some c \<Rightarrow>
                         if c < MIN_PE
                         then Some (msg_pe_floored toFixed c)
                         else None)\<rparr>)"

section \<open>Random sampling\<close>

text \<open>
  \<^verbatim>\<open>Math.random()\<close> is the only source of randomness. A run of the program sees a
  sequence of its results; \<open>rnd k\<close> is the result of the \<open>k\<close>-th call, and the
  state threaded through the samplers is the number of calls made so far.

  \<^verbatim>\<open>boxMullerNormal\<close> repeats \<^verbatim>\<open>u1 = Math.random()\<close> while \<^verbatim>\<open>u1 === 0\<close>, so on a
  sequence that is zero from some point on it does not return: the result \<open>None\<close>.
\<close>

type_synonym rng = "nat \<Rightarrow> real"

partial_function (option) boxMullerNormal :: "rng \<Rightarrow> nat \<Rightarrow> (real \<times> nat) option" where
  "boxMullerNormal rnd i =
     (let u1 = rnd i in
      if u1 = 0 then boxMullerNormal rnd (i + 1)
      else let u2 = rnd (i + 1)
           in Some (sqrt (- 2.0 * ln u1) * cos (2.0 * pi * u2), i + 2))"

text \<open>
  The server's \<^verbatim>\<open>sampleTruncatedNormal\<close> is a \<^verbatim>\<open>do ... while\<close> loop over the local
  variables \<^verbatim>\<open>val\<close> and \<^verbatim>\<open>attempts\<close>; the parameters \<^verbatim>\<open>min\<close> and \<^verbatim>\<open>max\<close> are
  \<open>vmin\<close> and \<open>vmax\<close> here.
\<close>

function sample_loop ::
  "rng \<Rightarrow> real \<Rightarrow> real \<Rightarrow> real \<Rightarrow> real \<Rightarrow> nat \<Rightarrow> nat \<Rightarrow> (real \<times> nat) option" where
  "sample_loop rnd mean sigma vmin vmax attempts i =
     (case boxMullerNormal rnd i of
        None \<Rightarrow> None
      | Some (z, j) \<Rightarrow>
          let val = mean + sigma * z;
              attempts' = attempts + 1
          in if attempts' > 100 then Some (max vmin (min vmax mean), j)
             else if val < vmin \<or> val > vmax
                  then sample_loop rnd mean sigma vmin vmax attempts' j
                  else Some (val, j))"
  by pat_completeness auto
termination
  by (relation "measure (\<lambda>(rnd, mean, sigma, vmin, vmax, attempts, i). 101 - attempts)") auto

definition sampleTruncatedNormal ::
  "rng \<Rightarrow> real \<Rightarrow> real \<Rightarrow> real \<Rightarrow> real \<Rightarrow> nat \<Rightarrow> (real \<times> nat) option" where
  "sampleTruncatedNormal rnd mean sigma vmin vmax i = sample_loop rnd mean sigma vmin vmax 0 i"

text \<open>The worker's copy is a \<^verbatim>\<open>for (let a = 0; a < 100; a++)\<close> loop.\<close>

function sample_loop_w ::
  "rng \<Rightarrow> real \<Rightarrow> real \<Rightarrow> real \<Rightarrow> real \<Rightarrow> nat \<Rightarrow> nat \<Rightarrow> (real \<times> nat) option" where
  "sample_loop_w rnd mean sigma vmin vmax a i =
     (if a < 100
      then (case boxMullerNormal rnd i of
              None \<Rightarrow> None
            | Some (z, j) \<Rightarrow>
                let val = mean + sigma * z
                in if val \<ge> vmin \<and> val \<le> vmax then Some (val, j)
                   else sample_loop_w rnd mean sigma vmin vmax (a + 1) j)
      else Some (max vmin (min vmax mean), i))"
  by pat_completeness auto
termination
  by (relation "measure (\<lambda>(rnd, mean, sigma, vmin, vmax, a, i). 100 - a)") auto

definition sampleTruncatedNormal_w ::
  "rng \<Rightarrow> real \<Rightarrow> real \<Rightarrow> real \<Rightarrow> real \<Rightarrow> nat \<Rightarrow> (real \<times> nat) option" where
  "sampleTruncatedNormal_w rnd mean sigma vmin vmax i = sample_loop_w rnd mean sigma vmin vmax 0 i"

declare sample_loop.simps [simp del] sample_loop_w.simps [simp del]

text \<open>
  \<open>normals rnd k i\<close> are the values of \<open>k\<close> successive calls of
  \<^verbatim>\<open>boxMullerNormal\<close> from position \<open>i\<close>, with the position reached. It serves to
  count the draws a sampler makes.
\<close>

fun normals :: "rng \<Rightarrow> nat \<Rightarrow> nat \<Rightarrow> (real list \<times> nat) option" where
  "normals rnd 0 i = Some ([], i)"
| "normals rnd (Suc k) i =
     (case boxMullerNormal rnd i of
        None \<Rightarrow> None
      | Some (z, j) \<Rightarrow>
          (case normals rnd k j of
             None \<Rightarrow> None
           | Some (zs, l) \<Rightarrow> Some (z # zs, l)))"

definition live :: "rng \<Rightarrow> bool" where
  \<comment> \<open>the sequence never stays at zero for ever, so every \<^verbatim>\<open>boxMullerNormal\<close> returns\<close>
  "live rnd \<longleftrightarrow> (\<forall>i. \<exists>j\<ge>i. rnd j \<noteq> 0)"

section \<open>Histograms\<close>

text \<open>
  The result is \<open>None\<close> where the source leaves the finite numbers or throws: on an
  empty array \<^verbatim>\<open>Math.min()\<close> is \<^verbatim>\<open>Infinity\<close>, and with \<^verbatim>\<open>numBins = 0\<close> the width
  is infinite or \<^verbatim>\<open>NaN\<close> and \<^verbatim>\<open>bins[idx].count++\<close> reads a bin that does not exist.
  A bin's \<^verbatim>\<open>binMid\<close> is \<open>None\<close> when the object has no such property.
\<close>

record bin =
  binStart :: real
  binEnd :: real
  binMid :: "real option"
  count :: nat
  frequency :: real

definition bin_index :: "real \<Rightarrow> real \<Rightarrow> nat \<Rightarrow> real \<Rightarrow> nat" where
  \<comment> \<open>the index computed for one value in the counting loop\<close>
  "bin_index vmin binWidth numBins val =
     (let idx = \<lfloor>(val - vmin) / binWidth\<rfloor>;
          idx = (if idx \<ge> int numBins then int numBins - 1 else idx);
          idx = (if idx < 0 then 0 else idx)
      in nat idx)"

definition count_value :: "real \<Rightarrow> real \<Rightarrow> nat \<Rightarrow> real \<Rightarrow> bin list \<Rightarrow> bin list" where
  \<comment> \<open>\<^verbatim>\<open>bins[idx].count++\<close>\<close>
  "count_value vmin binWidth numBins val bins =
     (let idx = bin_index vmin binWidth numBins val
      in bins[idx := (bins ! idx)\<lparr>count := count (bins ! idx) + 1\<rparr>])"

definition buildHistogram :: "real list \<Rightarrow> nat \<Rightarrow> bin list option" where
  "buildHistogram values numBins =
     (if values = [] \<or> numBins = 0 then None
      else
        let vmin = Min (set values);
            vmax = Max (set values);
            binWidth = (vmax - vmin) / real numBins
        in if binWidth = 0
           then Some [\<lparr>binStart = vmin, binEnd = vmin, binMid = None,
                       count = length values, frequency = 1\<rparr>]
           else
             let bins = map (\<lambda>i. \<lparr>binStart = vmin + real i * binWidth,
                                   binEnd = vmin + (real i + 1) * binWidth,
                                   binMid = Some (vmin + (real i + 0.5) * binWidth),
                                   count = 0, frequency = 0\<rparr>) [0..<numBins];
                 bins = fold (count_value vmin binWidth numBins) values bins;
                 total = length values
             in Some (map (\<lambda>b. b\<lparr>frequency := real (count b) / real total\<rparr>) bins))"

definition buildHistogram_w :: "real list \<Rightarrow> nat \<Rightarrow> bin list option" where
  "buildHistogram_w values numBins =
     (if values = [] \<or> numBins = 0 then None
      else
        let mn = Min (set values);
            mx = Max (set values);
            bw = (mx - mn) / real numBins
        in if bw = 0
           then Some [\<lparr>binStart = mn, binEnd = mn, binMid = Some mn,
                       count = length values, frequency = 1\<rparr>]
           else
             let bins = map (\<lambda>i. \<lparr>binStart = mn + real i * bw,
                                   binEnd = mn + (real i + 1) * bw,
                                   binMid = Some (mn + (real i + 0.5) * bw),
                                   count = 0, frequency = 0\<rparr>) [0..<numBins];
                 bins = fold (count_value mn bw numBins) values bins
             in Some (map (\<lambda>b. b\<lparr>frequency := real (count b) / real (length values)\<rparr>) bins))"

section \<open>The Monte Carlo trials\<close>

text \<open>
  \<^verbatim>\<open>Math.pow\<close> on finite arguments, in exact arithmetic. The result \<open>None\<close> is
  \<^verbatim>\<open>NaN\<close> (a negative base with a fractional exponent) or an infinity (zero to a
  negative power). Likewise a division by zero is \<open>None\<close>.
\<close>

definition js_pow :: "real \<Rightarrow> real \<Rightarrow> num" where
  "js_pow x y =
     (if y = 0 then Some 1
      else if x > 0 then Some (x powr y)
      else if x = 0 then (if y > 0 then Some 0 else None)
      else if y = of_int \<lfloor>y\<rfloor> then Some (x powi \<lfloor>y\<rfloor>)
      else None)"

definition js_div :: "real \<Rightarrow> real \<Rightarrow> num" where
  "js_div x y = (if y = 0 then None else Some (x / y))"

definition js_gt :: "num \<Rightarrow> num \<Rightarrow> bool" where
  \<comment> \<open>\<^verbatim>\<open>a > b\<close>, false when either side is \<^verbatim>\<open>NaN\<close>\<close>
  "js_gt a b = (case (a, b) of (Some x, Some y) \<Rightarrow> x > y | _ \<Rightarrow> False)"

definition js_lt :: "num \<Rightarrow> num \<Rightarrow> bool" where
  "js_lt a b = (case (a, b) of (Some x, Some y) \<Rightarrow> x < y | _ \<Rightarrow> False)"

record trial =
  g :: real
  peT :: real
  epsT :: num
  priceT :: num
  cagr :: num
  beatsFD :: bool
  isLoss :: bool

text \<open>
  The parameter object of \<^verbatim>\<open>runSimulation\<close>. The four bounds may be absent and then
  take the defaults of the destructuring pattern. The fields \<^verbatim>\<open>meanGrowth\<close>,
  \<^verbatim>\<open>sigmaGrowth\<close>, \<^verbatim>\<open>meanPE\<close> and \<^verbatim>\<open>sigmaPE\<close> carry the suffix \<open>_p\<close>, the
  plain names being those of the estimators' results.
\<close>

record sim_params =
  price0 :: real
  eps0 :: real
  pe0 :: real
  years :: real
  numSimulations :: nat
  fdRate :: real
  meanGrowth_p :: real
  sigmaGrowth_p :: real
  meanPE_p :: real
  sigmaPE_p :: real
  growthMin :: "real option"
  growthMax :: "real option"
  peMin :: "real option"
  peMax :: "real option"

definition growthMin_of :: "sim_params \<Rightarrow> real" where
  "growthMin_of ps = (case growthMin ps of None \<Rightarrow> - 0.20 | Some v \<Rightarrow> v)"

definition growthMax_of :: "sim_params \<Rightarrow> real" where
  "growthMax_of ps = (case growthMax ps of None \<Rightarrow> 0.40 | Some v \<Rightarrow> v)"

definition peMin_of :: "sim_params \<Rightarrow> real" where
  "peMin_of ps = (case peMin ps of None \<Rightarrow> 5 | Some v \<Rightarrow> v)"

definition peMax_of :: "sim_params \<Rightarrow> real" where
  "peMax_of ps = (case peMax ps of None \<Rightarrow> 60 | Some v \<Rightarrow> v)"

definition fdTarget_of :: "sim_params \<Rightarrow> num" where
  \<comment> \<open>\<^verbatim>\<open>price0 * Math.pow(1 + fdRate, years)\<close>\<close>
  "fdTarget_of ps = do { p \<leftarrow> js_pow (1 + fdRate ps) (years ps); Some (price0 ps * p) }"

text \<open>The trial loop of the server: \<^verbatim>\<open>for (let i = 0; i < numSimulations; i++)\<close>.\<close>

function trials :: "rng \<Rightarrow> sim_params \<Rightarrow> nat \<Rightarrow> trial list \<Rightarrow> nat \<Rightarrow> (trial list \<times> nat) option" where
  "trials rnd ps i results pos =
     (if i < numSimulations ps
      then do {
        (g, pos) \<leftarrow> sampleTruncatedNormal rnd (meanGrowth_p ps) (sigmaGrowth_p ps)
                      (growthMin_of ps) (growthMax_of ps) pos;
        (peT, pos) \<leftarrow> sampleTruncatedNormal rnd (meanPE_p ps) (sigmaPE_p ps)
                        (peMin_of ps) (peMax_of ps) pos;
        let epsT = do { p \<leftarrow> js_pow (1 + g) (years ps); Some (eps0 ps * p) };
            priceT = do { e \<leftarrow> epsT; Some (e * peT) };
            cagr = do { p \<leftarrow> priceT; q \<leftarrow> js_div p (price0 ps); y \<leftarrow> js_div 1 (years ps);
                        r \<leftarrow> js_pow q y; Some (r - 1) };
            beatsFD = js_gt priceT (fdTarget_of ps);
            isLoss = js_lt priceT (Some (price0 ps))
        in trials rnd ps (i + 1)
             (results @ [\<lparr>g = g, peT = peT, epsT = epsT, priceT = priceT, cagr = cagr,
                           beatsFD = beatsFD, isLoss = isLoss\<rparr>]) pos }
      else Some (results, pos))"
  by pat_completeness auto
termination
  by (relation "measure (\<lambda>(rnd, ps, i, results, pos). numSimulations ps - i)") auto

text \<open>The trial loop of the worker.\<close>

function trials_w :: "rng \<Rightarrow> sim_params \<Rightarrow> nat \<Rightarrow> trial list \<Rightarrow> nat \<Rightarrow> (trial list \<times> nat) option" where
  "trials_w rnd ps i results pos =
     (if i < numSimulations ps
      then do {
        (g, pos) \<leftarrow> sampleTruncatedNormal_w rnd (meanGrowth_p ps) (sigmaGrowth_p ps)
                      (growthMin_of ps) (growthMax_of ps) pos;
        (peT, pos) \<leftarrow> sampleTruncatedNormal_w rnd (meanPE_p ps) (sigmaPE_p ps)
                        (peMin_of ps) (peMax_of ps) pos;
        let epsT = do { p \<leftarrow> js_pow (1 + g) (years ps); Some (eps0 ps * p) };
            priceT = do { e \<leftarrow> epsT; Some (e * peT) };
            cagr = do { p \<leftarrow> priceT; q \<leftarrow> js_div p (price0 ps); y \<leftarrow> js_div 1 (years ps);
                        r \<leftarrow> js_pow q y; Some (r - 1) }
        in trials_w rnd ps (i + 1)
             (results @ [\<lparr>g = g, peT = peT, epsT = epsT, priceT = priceT, cagr = cagr,
                           beatsFD = js_gt priceT (fdTarget_of ps),
                           isLoss = js_lt priceT (Some (price0 ps))\<rparr>]) pos }
      else Some (results, pos))"
  by pat_completeness auto
termination
  by (relation "measure (\<lambda>(rnd, ps, i, results, pos). numSimulations ps - i)") auto

declare trials.simps [simp del] trials_w.simps [simp del]

section \<open>Aggregation of a simulation run\<close>

text \<open>
  The aggregates sort and average the trial values. They are modelled for runs whose
  trial values are all finite; a run with a \<^verbatim>\<open>NaN\<close> among them, or with a division
  by zero (\<^verbatim>\<open>numSimulations = 0\<close>, \<^verbatim>\<open>price0 = 0\<close>, \<^verbatim>\<open>years = 0\<close>), is outside the
  model and \<open>runSimulation\<close> is \<open>None\<close> there, as it is when a sampler does not return.
  With \<^verbatim>\<open>years\<close> positive no infinity arises and \<open>None\<close> in a trial is \<^verbatim>\<open>NaN\<close>.
\<close>

record pct_summary =
  p10 :: real
  p25 :: real
  p50 :: real
  p75 :: real
  p90 :: real
  mean :: real

record summary =
  s_price :: pct_summary
  s_cagr :: pct_summary
  probBeatsFD :: real
  probLoss :: real
  fdTarget :: real
  s_fdRate :: real
  s_years :: real
  s_numSimulations :: nat

record scenario =
  growthLabel :: string
  growthValue :: real
  peLabel :: string
  peValue :: real
  sc_epsT :: real
  sc_priceT :: real
  sc_cagr :: real

record sensitivity =
  growthContribution :: real
  peContribution :: real
  varGrowth :: real
  varPE :: real

record distributions =
  d_price :: "bin list"
  d_cagr :: "bin list"
  d_growth :: "bin list"
  d_pe :: "bin list"

text \<open>
  The server's result has the property \<^verbatim>\<open>rawResults\<close> and no \<^verbatim>\<open>sampledResults\<close>; the
  worker's has \<^verbatim>\<open>sampledResults\<close> and no \<^verbatim>\<open>rawResults\<close>. An absent property is
  \<open>None\<close>.
\<close>

record sim_result =
  r_summary :: summary
  scenarios :: "scenario list"
  r_sensitivity :: sensitivity
  r_distributions :: distributions
  inputParams :: sim_params
  rawResults :: "trial list option"
  sampledResults :: "trial list option"

definition those_nums :: "num list \<Rightarrow> real list option" where
  \<comment> \<open>the numbers of an array, provided none is \<^verbatim>\<open>NaN\<close>\<close>
  "those_nums xs = (if None \<in> set xs then None else Some (map the xs))"

definition percentiles5 :: "real list \<Rightarrow> pct_summary option" where
  \<comment> \<open>the object \<^verbatim>\<open>{p10, p25, p50, p75, p90, mean}\<close> of the server's summary\<close>
  "percentiles5 xs =
     do { a \<leftarrow> percentile xs 10; b \<leftarrow> percentile xs 25; c \<leftarrow> percentile xs 50;
          d \<leftarrow> percentile xs 75; e \<leftarrow> percentile xs 90;
          m \<leftarrow> js_div (foldl (+) 0 xs) (real (length xs));
          Some \<lparr>p10 = a, p25 = b, p50 = c, p75 = d, p90 = e, mean = m\<rparr> }"

definition scenario_of ::
  "sim_params \<Rightarrow> string \<times> real \<Rightarrow> string \<times> real \<Rightarrow> scenario option" where
  \<comment> \<open>the body of the two nested loops over the percentile objects\<close>
  "scenario_of ps gEntry peEntry =
     (case (gEntry, peEntry) of ((gLabel, gVal), (peLabel', peVal)) \<Rightarrow>
        do { p \<leftarrow> js_pow (1 + gVal) (years ps);
             let epsScen = eps0 ps * p;
             let priceScen = epsScen * peVal;
             q \<leftarrow> js_div priceScen (price0 ps);
             y \<leftarrow> js_div 1 (years ps);
             r \<leftarrow> js_pow q y;
             let cagrScen = r - 1;
             Some \<lparr>growthLabel = gLabel, growthValue = gVal, peLabel = peLabel', peValue = peVal,
                    sc_epsT = epsScen, sc_priceT = priceScen, sc_cagr = cagrScen\<rparr> })"

fun all_some :: "'a option list \<Rightarrow> 'a list option" where
  "all_some [] = Some []"
| "all_some (x # xs) = do { y \<leftarrow> x; ys \<leftarrow> all_some xs; Some (y # ys) }"

definition variance :: "real list \<Rightarrow> real option" where
  \<comment> \<open>\<^verbatim>\<open>Math.pow(val - mean, 2)\<close> is the square\<close>
  "variance arr =
     do { m \<leftarrow> js_div (foldl (+) 0 arr) (real (length arr));
          js_div (foldl (\<lambda>sum val. sum + (val - m)\<^sup>2) 0 arr) (real (length arr)) }"

text \<open>
  \<^verbatim>\<open>runSimulation\<close> is the trial loop followed by the aggregation of its results; the
  second part, everything after the loop, is \<open>aggregate\<close>.
\<close>

definition aggregate :: "sim_params \<Rightarrow> trial list \<Rightarrow> sim_result option" where
  "aggregate ps results =
     do { fdT \<leftarrow> fdTarget_of ps;
          prices \<leftarrow> those_nums (map priceT results);
          cagrs \<leftarrow> those_nums (map cagr results);
          let growths = map g results;
          let pes = map peT results;
          sp \<leftarrow> percentiles5 prices;
          sc \<leftarrow> percentiles5 cagrs;
          pb \<leftarrow> js_div (real (length (filter beatsFD results))) (real (numSimulations ps));
          pl \<leftarrow> js_div (real (length (filter isLoss results))) (real (numSimulations ps));
          let summ = \<lparr>s_price = sp, s_cagr = sc, probBeatsFD = pb, probLoss = pl, fdTarget = fdT,
                      s_fdRate = fdRate ps, s_years = years ps,
                      s_numSimulations = numSimulations ps\<rparr>;
          g25 \<leftarrow> percentile growths 25; g50 \<leftarrow> percentile growths 50;
          g75 \<leftarrow> percentile growths 75;
          pe25 \<leftarrow> percentile pes 25; pe50 \<leftarrow> percentile pes 50; pe75 \<leftarrow> percentile pes 75;
          let gPercentiles = [(''p25'', g25), (''p50'', g50), (''p75'', g75)];
          let pePercentiles = [(''p25'', pe25), (''p50'', pe50), (''p75'', pe75)];
          scens \<leftarrow> all_some (concat (map (\<lambda>ge. map (\<lambda>pe. scenario_of ps ge pe) pePercentiles)
                                       gPercentiles));
          medianGrowth \<leftarrow> percentile growths 50;
          medianPE \<leftarrow> percentile pes 50;
          pricesVaryGrowth \<leftarrow> all_some (map (\<lambda>r. do { p \<leftarrow> js_pow (1 + g r) (years ps);
                                                       let epsFixed = eps0 ps * p;
                                                       Some (epsFixed * medianPE) }) results);
          pricesVaryPE \<leftarrow> all_some (map (\<lambda>r. do { p \<leftarrow> js_pow (1 + medianGrowth) (years ps);
                                                   let epsFixed = eps0 ps * p;
                                                   Some (epsFixed * peT r) }) results);
          varG \<leftarrow> variance pricesVaryGrowth;
          varP \<leftarrow> variance pricesVaryPE;
          let totalVar = varG + varP;
          let sens = \<lparr>growthContribution = (if totalVar > 0 then varG / totalVar else 0.5),
                      peContribution = (if totalVar > 0 then varP / totalVar else 0.5),
                      varGrowth = varG, varPE = varP\<rparr>;
          priceHistogram \<leftarrow> buildHistogram prices 50;
          cagrHistogram \<leftarrow> buildHistogram cagrs 50;
          growthHistogram \<leftarrow> buildHistogram growths 30;
          peHistogram \<leftarrow> buildHistogram pes 30;
          Some \<lparr>r_summary = summ, scenarios = scens, r_sensitivity = sens,
                 r_distributions = \<lparr>d_price = priceHistogram, d_cagr = cagrHistogram,
                                     d_growth = growthHistogram, d_pe = peHistogram\<rparr>,
                 inputParams = ps\<lparr>growthMin := Some (growthMin_of ps),
                                  growthMax := Some (growthMax_of ps),
                                  peMin := Some (peMin_of ps), peMax := Some (peMax_of ps)\<rparr>,
                 rawResults = Some results, sampledResults = None\<rparr> }"

definition runSimulation :: "rng \<Rightarrow> sim_params \<Rightarrow> nat \<Rightarrow> (sim_result \<times> nat) option" where
  "runSimulation rnd ps pos =
     do { (results, pos) \<leftarrow> trials rnd ps 0 [] pos;
          res \<leftarrow> aggregate ps results;
          Some (res, pos) }"

text \<open>The worker's copy, with its helpers \<^verbatim>\<open>avg\<close> and \<^verbatim>\<open>variance\<close> and its sampling loop.\<close>

definition avg_w :: "real list \<Rightarrow> real option" where
  "avg_w a = js_div (foldl (\<lambda>s v. s + v) 0 a) (real (length a))"

definition variance_w :: "real list \<Rightarrow> real option" where
  "variance_w a =
     do { m \<leftarrow> avg_w a;
          js_div (foldl (\<lambda>s v. s + (v - m)\<^sup>2) 0 a) (real (length a)) }"

definition percentiles5_w :: "real list \<Rightarrow> pct_summary option" where
  "percentiles5_w xs =
     do { a \<leftarrow> percentile_w xs 10; b \<leftarrow> percentile_w xs 25; c \<leftarrow> percentile_w xs 50;
          d \<leftarrow> percentile_w xs 75; e \<leftarrow> percentile_w xs 90;
          m \<leftarrow> avg_w xs;
          Some \<lparr>p10 = a, p25 = b, p50 = c, p75 = d, p90 = e, mean = m\<rparr> }"

definition scenario_of_w ::
  "sim_params \<Rightarrow> string \<times> real \<Rightarrow> string \<times> real \<Rightarrow> scenario option" where
  "scenario_of_w ps gEntry peEntry =
     (case (gEntry, peEntry) of ((gL, gV), (pL, pV)) \<Rightarrow>
        do { pw \<leftarrow> js_pow (1 + gV) (years ps);
             let e = eps0 ps * pw;
             let p = e * pV;
             q \<leftarrow> js_div p (price0 ps);
             y \<leftarrow> js_div 1 (years ps);
             r \<leftarrow> js_pow q y;
             Some \<lparr>growthLabel = gL, growthValue = gV, peLabel = pL, peValue = pV,
                    sc_epsT = e, sc_priceT = p, sc_cagr = r - 1\<rparr> })"

function sample_results :: "trial list \<Rightarrow> nat \<Rightarrow> nat \<Rightarrow> trial list \<Rightarrow> trial list" where
  \<comment> \<open>\<^verbatim>\<open>for (let i = 0; i < results.length; i += step) sampledResults.push(results[i])\<close>\<close>
  "sample_results results step i sampled =
     (if i < length results \<and> 0 < step
      then sample_results results step (i + step) (sampled @ [results ! i])
      else sampled)"
  by pat_completeness auto
termination
  by (relation "measure (\<lambda>(results, step, i, sampled). length results - i)") auto

declare sample_results.simps [simp del]

definition aggregate_w :: "sim_params \<Rightarrow> trial list \<Rightarrow> sim_result option" where
  "aggregate_w ps results =
     do { fdT \<leftarrow> fdTarget_of ps;
          prices \<leftarrow> those_nums (map priceT results);
          cagrs \<leftarrow> those_nums (map cagr results);
          let growths = map g results;
          let pes = map peT results;
          sp \<leftarrow> percentiles5_w prices;
          sc \<leftarrow> percentiles5_w cagrs;
          pb \<leftarrow> js_div (real (length (filter beatsFD results))) (real (numSimulations ps));
          pl \<leftarrow> js_div (real (length (filter isLoss results))) (real (numSimulations ps));
          let summ = \<lparr>s_price = sp, s_cagr = sc, probBeatsFD = pb, probLoss = pl, fdTarget = fdT,
                      s_fdRate = fdRate ps, s_years = years ps,
                      s_numSimulations = numSimulations ps\<rparr>;
          g25 \<leftarrow> percentile_w growths 25; g50 \<leftarrow> percentile_w growths 50;
          g75 \<leftarrow> percentile_w growths 75;
          pe25 \<leftarrow> percentile_w pes 25; pe50 \<leftarrow> percentile_w pes 50;
          pe75 \<leftarrow> percentile_w pes 75;
          let gP = [(''p25'', g25), (''p50'', g50), (''p75'', g75)];
          let peP = [(''p25'', pe25), (''p50'', pe50), (''p75'', pe75)];
          scens \<leftarrow> all_some (concat (map (\<lambda>ge. map (\<lambda>pe. scenario_of_w ps ge pe) peP) gP));
          medG \<leftarrow> percentile_w growths 50;
          medPE \<leftarrow> percentile_w pes 50;
          vg \<leftarrow> all_some (map (\<lambda>r. do { p \<leftarrow> js_pow (1 + g r) (years ps);
                                         Some (eps0 ps * p * medPE) }) results);
          vp \<leftarrow> all_some (map (\<lambda>r. do { p \<leftarrow> js_pow (1 + medG) (years ps);
                                         Some (eps0 ps * p * peT r) }) results);
          varG \<leftarrow> variance_w vg;
          varP \<leftarrow> variance_w vp;
          let tot = varG + varP;
          let sens = \<lparr>growthContribution = (if tot > 0 then varG / tot else 0.5),
                      peContribution = (if tot > 0 then varP / tot else 0.5),
                      varGrowth = varG, varPE = varP\<rparr>;
          let step = max 1 (length results div 2000);
          let sampled = sample_results results step 0 [];
          hp \<leftarrow> buildHistogram_w prices 50;
          hc \<leftarrow> buildHistogram_w cagrs 50;
          hg \<leftarrow> buildHistogram_w growths 30;
          hpe \<leftarrow> buildHistogram_w pes 30;
          Some \<lparr>r_summary = summ, scenarios = scens, r_sensitivity = sens,
                 r_distributions = \<lparr>d_price = hp, d_cagr = hc, d_growth = hg, d_pe = hpe\<rparr>,
                 inputParams = ps\<lparr>growthMin := Some (growthMin_of ps),
                                  growthMax := Some (growthMax_of ps),
                                  peMin := Some (peMin_of ps), peMax := Some (peMax_of ps)\<rparr>,
                 rawResults = None, sampledResults = Some sampled\<rparr> }"

definition runSimulation_w :: "rng \<Rightarrow> sim_params \<Rightarrow> nat \<Rightarrow> (sim_result \<times> nat) option" where
  "runSimulation_w rnd ps pos =
     do { (results, pos) \<leftarrow> trials_w rnd ps 0 [] pos;
          res \<leftarrow> aggregate_w ps results;
          Some (res, pos) }"

section \<open>The CSV projection\<close>

text \<open>
  The two \<^verbatim>\<open>/api/simulate/csv\<close> handlers. The request body is passed to
  \<^verbatim>\<open>runSimulation\<close> as it is. The response body is the array \<^verbatim>\<open>csv\<close> joined by line
  feeds; the model keeps the array of lines. \<^verbatim>\<open>toFixed\<close> is again a parameter, and
  \<^verbatim>\<open>NaN.toFixed(d)\<close> is the text \<^verbatim>\<open>NaN\<close>.
\<close>

function nat_to_string :: "nat \<Rightarrow> string" where
  \<comment> \<open>the decimal digits of an index, as template interpolation prints it\<close>
  "nat_to_string n =
     (if n < 10 then [''0123456789'' ! n]
      else nat_to_string (n div 10) @ [''0123456789'' ! (n mod 10)])"
  by pat_completeness auto
termination
  by (relation "measure (\<lambda>n. n)") auto

declare nat_to_string.simps [simp del]

definition bool_to_string :: "bool \<Rightarrow> string" where
  "bool_to_string b = (if b then ''true'' else ''false'')"

definition fixed :: "(real \<Rightarrow> nat \<Rightarrow> string) \<Rightarrow> num \<Rightarrow> nat \<Rightarrow> string" where
  "fixed toFixed x d = (case x of None \<Rightarrow> ''NaN'' | Some v \<Rightarrow> toFixed v d)"

definition csv_header :: string where
  "csv_header = ''SimulationIndex,GrowthRate,TerminalPE,TerminalEPS,TerminalPrice,CAGR,BeatsFD,IsLoss''"

definition csv_row :: "(real \<Rightarrow> nat \<Rightarrow> string) \<Rightarrow> nat \<Rightarrow> trial \<Rightarrow> string" where
  \<comment> \<open>the template literal pushed for the element \<open>r\<close> at index \<open>i\<close>\<close>
  "csv_row toFixed i r =
     nat_to_string (i + 1) @ '','' @ toFixed (g r) 6 @ '','' @ toFixed (peT r) 2 @ '',''
     @ fixed toFixed (epsT r) 4 @ '','' @ fixed toFixed (priceT r) 2 @ '',''
     @ fixed toFixed (cagr r) 6 @ '','' @ bool_to_string (beatsFD r) @ '',''
     @ bool_to_string (isLoss r)"

definition csv_lines :: "(real \<Rightarrow> nat \<Rightarrow> string) \<Rightarrow> trial list \<Rightarrow> string list" where
  \<comment> \<open>the header, then \<^verbatim>\<open>raw.forEach((r, i) => csv.push(...))\<close>\<close>
  "csv_lines toFixed raw = csv_header # map (\<lambda>(i, r). csv_row toFixed i r) (enumerate 0 raw)"

datatype response = Status400 string | Status500 | CsvFile "string list"

definition simulate_csv ::
  "(real \<Rightarrow> nat \<Rightarrow> string) \<Rightarrow> rng \<Rightarrow> sim_params \<Rightarrow> nat \<Rightarrow> (response \<times> nat) option" where
  \<comment> \<open>the server's handler; reading \<^verbatim>\<open>forEach\<close> of an absent \<^verbatim>\<open>rawResults\<close> would
      throw and be answered with status 500\<close>
  "simulate_csv toFixed rnd params pos =
     (if price0 params = 0 \<or> eps0 params = 0
      then Some (Status400 ''price0 and eps0 are required.'', pos)
      else do { (result, pos) \<leftarrow> runSimulation rnd params pos;
                case rawResults result of
                  None \<Rightarrow> Some (Status500, pos)
                | Some raw \<Rightarrow> Some (CsvFile (csv_lines toFixed raw), pos) })"

definition simulate_csv_w ::
  "(real \<Rightarrow> nat \<Rightarrow> string) \<Rightarrow> rng \<Rightarrow> sim_params \<Rightarrow> nat \<Rightarrow> (response \<times> nat) option" where
  \<comment> \<open>the worker's handler: \<^verbatim>\<open>const raw = result.sampledResults || []\<close>\<close>
  "simulate_csv_w toFixed rnd body pos =
     (if price0 body = 0 \<or> eps0 body = 0
      then Some (Status400 ''price0 and eps0 are required.'', pos)
      else do { (result, pos) \<leftarrow> runSimulation_w rnd body pos;
                let raw = (case sampledResults result of None \<Rightarrow> [] | Some rs \<Rightarrow> rs);
                Some (CsvFile (csv_lines toFixed raw), pos) })"

section \<open>Reference formulations taken from the specification\<close>

text \<open>
  The specification describes the growth rates as a selection over the consecutive pairs
  of the history, and the IQR-based sigma through the interpolating percentile. Both
  descriptions are written down as stated, to be compared with the code.
\<close>

definition valid_growth_rates :: "eps_entry list \<Rightarrow> real list" where
  "valid_growth_rates h =
     [(c - p) / \<bar>p\<bar>. (Num p, Num c) \<leftarrow> zip (map eps h) (tl (map eps h)), p > 0]"

definition iqrSigma_spec :: "real list \<Rightarrow> num" where
  "iqrSigma_spec values =
     do { Q1 \<leftarrow> percentile values 25; Q3 \<leftarrow> percentile values 75; Some ((Q3 - Q1) / 1.349) }"

text \<open>
  The invariant the specification states for every trial record of a run: the three
  equations, with \<^verbatim>\<open>Math.pow\<close> for the powers, and the two ranges.
\<close>

definition trial_invariant :: "sim_params \<Rightarrow> trial \<Rightarrow> bool" where
  "trial_invariant ps r \<longleftrightarrow>
     epsT r = do { p \<leftarrow> js_pow (1 + g r) (years ps); Some (eps0 ps * p) } \<and>
     priceT r = do { e \<leftarrow> epsT r; Some (e * peT r) } \<and>
     cagr r = do { p \<leftarrow> priceT r; q \<leftarrow> js_div p (price0 ps); y \<leftarrow> js_div 1 (years ps);
                   c \<leftarrow> js_pow q y; Some (c - 1) } \<and>
     growthMin_of ps \<le> g r \<and> g r \<le> growthMax_of ps \<and>
     peMin_of ps \<le> peT r \<and> peT r \<le> peMax_of ps"

section \<open>Concrete inputs used in examples\<close>

definition const_rng :: "real \<Rightarrow> rng" where
  \<comment> \<open>a random source that returns the same value at every call\<close>
  "const_rng c = (\<lambda>k. c)"

definition example_params :: sim_params where
  \<comment> \<open>the parameters of the specification's end-to-end scenario, with no spread and
      a horizon of one year\<close>
  "example_params =
     \<lparr>price0 = 100, eps0 = 5, pe0 = 20, years = 1, numSimulations = 2, fdRate = 0.07,
      meanGrowth_p = 0.10, sigmaGrowth_p = 0, meanPE_p = 20, sigmaPE_p = 0,
      growthMin = None, growthMax = None, peMin = None, peMax = None\<rparr>"

definition swapped_bounds_params :: sim_params where
  \<comment> \<open>as before, one trial, with the growth bounds given in the wrong order\<close>
  "swapped_bounds_params =
     example_params\<lparr>numSimulations := 1, growthMin := Some 0.40, growthMax := Some (- 0.20)\<rparr>"

definition many_trials_params :: sim_params where
  \<comment> \<open>the example parameters with 4000 simulations\<close>
  "many_trials_params = example_params\<lparr>numSimulations := 4000\<rparr>"

text \<open>
  A rendering of \<^verbatim>\<open>toFixed\<close> in exact arithmetic, for the examples: the sign, then the
  nearest multiple of \<open>10 ^ -d\<close> (ties upwards in magnitude) with \<open>d\<close> digits after
  the point. The theorems hold for any \<open>toFixed\<close>.
\<close>

definition toFixed_exact :: "real \<Rightarrow> nat \<Rightarrow> string" where
  "toFixed_exact x d =
     (let n = nat \<lfloor>\<bar>x\<bar> * 10 ^ d + 1 / 2\<rfloor>;
          whole = nat_to_string (n div 10 ^ d);
          frac = nat_to_string (n mod 10 ^ d)
      in (if x < 0 then ''-'' else '''') @ whole
         @ (if d = 0 then '''' else ''.'' @ replicate (d - length frac) (CHR ''0'') @ frac))"

definition csv_data_rows :: "(response \<times> nat) option \<Rightarrow> nat option" where
  \<comment> \<open>the number of lines after the header in a CSV response\<close>
  "csv_data_rows out =
     (case out of Some (CsvFile lines, j) \<Rightarrow> Some (length lines - 1) | _ \<Rightarrow> None)"

section \<open>The two copies of the statistics agree\<close>

lemma median_w_eq: "median_w = median"
  by (rule ext) (simp add: median_w_def median_def)

lemma mad_w_eq: "mad_w = mad"
  by (rule ext) (simp add: mad_w_def mad_def median_w_eq)

lemma madSigma_w_eq: "madSigma_w = madSigma"
  by (rule ext) (simp add: madSigma_w_def madSigma_def mad_w_eq)

lemma iqrSigma_w_eq: "iqrSigma_w = iqrSigma"
  by (rule ext) (simp add: iqrSigma_w_def iqrSigma_def)

lemma robustSigma_w_eq: "robustSigma_w = robustSigma"
  by (rule ext) (simp add: robustSigma_w_def robustSigma_def madSigma_w_eq iqrSigma_w_eq)

lemma percentile_w_eq: "percentile_w = percentile"
  by (rule ext)+ (simp add: percentile_w_def percentile_def)

lemma loose_ne_null_iff: "loose_ne_null v \<longleftrightarrow> v \<noteq> Null \<and> v \<noteq> Undefined"
  by (cases v) simp_all

lemma collect_growth_w_eq: "collect_growth_w h i acc = collect_growth h i acc"
  by (induction h i acc rule: collect_growth.induct)
     (subst collect_growth.simps, subst collect_growth_w.simps, simp add: loose_ne_null_iff Let_def)

lemma computeEPSGrowthDistribution_w_eq: "computeEPSGrowthDistribution_w = computeEPSGrowthDistribution"
  by (rule ext)+ (simp add: computeEPSGrowthDistribution_w_def computeEPSGrowthDistribution_def
      collect_growth_w_eq robustSigma_w_eq median_w_eq Let_def split: option.split)

lemma computePEDistribution_w_eq: "computePEDistribution_w = computePEDistribution"
  by (rule ext)+ (simp add: computePEDistribution_w_def computePEDistribution_def
      robustSigma_w_eq median_w_eq Let_def split: option.split)

lemma floor_quarter: "\<lfloor>real n * 0.25\<rfloor> = int (n div 4)"
proof -
  have "real n * 0.25 = real n / real 4" by simp
  then show ?thesis by (simp only: floor_divide_of_nat_eq) 
qed

lemma floor_three_quarters: "\<lfloor>real n * 0.75\<rfloor> = int (3 * n div 4)"
proof -
  have "real n * 0.75 = real (3 * n) / real 4" by simp
  then show ?thesis by (simp only: floor_divide_of_nat_eq) 
qed

lemma at_index_nat: "k < length arr \<Longrightarrow> at_index arr (int k) = Some (arr ! k)"
  by (simp add: at_index_def)

lemma iqrSigma_nonempty:
  assumes "arr \<noteq> []"
  shows "iqrSigma arr = Some ((sort arr ! (3 * length arr div 4) - sort arr ! (length arr div 4)) / 1.349)"
proof -
  have "0 < length arr" using assms by simp
  then have "3 * length arr div 4 < length arr" "length arr div 4 < length arr" by arith+
  then have "3 * length arr div 4 < length (sort arr)" "length arr div 4 < length (sort arr)" by simp_all
  then have "at_index (sort arr) (int (3 * length arr div 4)) = Some (sort arr ! (3 * length arr div 4))"
       "at_index (sort arr) (int (length arr div 4)) = Some (sort arr ! (length arr div 4))"
    by (simp_all only: at_index_nat)
  then show ?thesis
    unfolding iqrSigma_def Let_def floor_quarter floor_three_quarters length_sort
    by simp
qed

lemma median_nonempty:
  assumes "arr \<noteq> []"
  shows "median arr \<noteq> None"
proof -
  let ?s = "sort arr"
  have n: "0 < length ?s" using assms by simp
  have mid: "int (length ?s) div 2 = int (length ?s div 2)" by simp
  have "length ?s div 2 < length ?s" using n by arith
  then have a: "at_index ?s (int (length ?s div 2)) = Some (?s ! (length ?s div 2))"
    by (rule at_index_nat)
  show ?thesis
  proof (cases "length ?s mod 2 \<noteq> 0")
    case True
    then show ?thesis unfolding median_def Let_def mid using a by simp
  next
    case False
    then have "int (length ?s div 2) - 1 = int (length ?s div 2 - 1)" "length ?s div 2 - 1 < length ?s"
      using n by arith+
    then have "at_index ?s (int (length ?s div 2) - 1) = Some (?s ! (length ?s div 2 - 1))"
      by (simp only: at_index_nat)
    then show ?thesis unfolding median_def Let_def mid using a False by simp
  qed
qed

lemma mad_nonempty: "arr \<noteq> [] \<Longrightarrow> mad arr \<noteq> None"
  using median_nonempty[of arr] median_nonempty[of "map f arr" for f]
  by (auto simp: mad_def)

lemma robustSigma_nonempty: "arr \<noteq> [] \<Longrightarrow> robustSigma arr \<noteq> None"
  using mad_nonempty[of arr] iqrSigma_nonempty[of arr]
  by (auto simp: robustSigma_def madSigma_def)

section \<open>The growth-rate loop selects the valid consecutive pairs\<close>

lemma vgr_Nil: "valid_growth_rates [] = []"
  by (simp add: valid_growth_rates_def)

lemma vgr_single: "valid_growth_rates [a] = []"
  by (simp add: valid_growth_rates_def)

lemma vgr_Cons2:
  "valid_growth_rates (a # b # rest) =
     (if gt_zero (eps a) \<and> eps b \<noteq> Null \<and> eps b \<noteq> Undefined
      then growth_rate (eps b) (eps a) else []) @ valid_growth_rates (b # rest)"
  by (cases "eps a"; cases "eps b") (simp_all add: valid_growth_rates_def)

lemma vgr_short: "length h < 2 \<Longrightarrow> valid_growth_rates h = []"
  by (cases h rule: remdups_adj.cases) (simp_all add: vgr_Nil vgr_single)

lemma collect_growth_spec:
  "1 \<le> i \<Longrightarrow> collect_growth h i acc = acc @ valid_growth_rates (drop (i - 1) h)"
proof (induction h i acc rule: collect_growth.induct)
  case (1 h i acc)
  show ?case
  proof (cases "i < length h")
    case True
    with "1.prems" have d1: "drop (i - 1) h = h ! (i - 1) # h ! i # drop (i + 1) h"
      by (metis Cons_nth_drop_Suc Suc_eq_plus1 Suc_pred' less_imp_diff_less less_le_trans zero_less_one_class.zero_less_one order.strict_iff_not)
    from True have d2: "drop i h = h ! i # drop (i + 1) h"
      by (simp add: Cons_nth_drop_Suc)
    let ?r = "if gt_zero (eps (h ! (i - 1))) \<and> eps (h ! i) \<noteq> Null \<and> eps (h ! i) \<noteq> Undefined
              then acc @ growth_rate (eps (h ! i)) (eps (h ! (i - 1))) else acc"
    have ih: "collect_growth h (i + 1) ?r = ?r @ valid_growth_rates (drop i h)"
      using "1.IH"[OF True refl refl] by simp
    have "collect_growth h i acc = collect_growth h (i + 1) ?r"
      by (subst collect_growth.simps) (simp add: True Let_def)
    also have "\<dots> = ?r @ valid_growth_rates (drop i h)" by (rule ih)
    also have "\<dots> = acc @ valid_growth_rates (drop (i - 1) h)"
      unfolding d1 vgr_Cons2 unfolding d2[symmetric] by simp
    finally show ?thesis .
  next
    case False
    then have "drop (i - 1) h = [] \<or> (\<exists>a. drop (i - 1) h = [a])"
      using "1.prems"
      by (metis One_nat_def Suc_pred' drop_all drop_eq_Nil2 linorder_not_less not_less_eq_eq Cons_nth_drop_Suc less_le_trans zero_less_one)
    then have "valid_growth_rates (drop (i - 1) h) = []"
      by (auto simp: vgr_Nil vgr_single)
    with False show ?thesis
      by (subst collect_growth.simps) simp
  qed
qed

lemma collect_growth_from_one: "collect_growth h 1 [] = valid_growth_rates h"
  using collect_growth_spec[of 1 h "[]"] by simp

lemma robustSigma_obtain: "arr \<noteq> [] \<Longrightarrow> \<exists>s. robustSigma arr = Some s"
  using robustSigma_nonempty[of arr] by auto

lemma percentile_at_integer:
  assumes "k < length arr" "(p / 100) * (real (length arr) - 1) = real k"
  shows "percentile arr p = Some (sort arr ! k)"
proof -
  have "at_index (sort arr) (int k) = Some (sort arr ! k)"
    using assms(1) by (simp add: at_index_nat)
  then show ?thesis
    unfolding percentile_def Let_def length_sort assms(2) by simp
qed

lemma iqrSigma_spec_agrees:
  assumes "length arr mod 4 = 1"
  shows "iqrSigma arr = iqrSigma_spec arr"
proof -
  obtain k where n: "length arr = 4 * k + 1"
    using assms by (metis mod_div_decomp mult.commute)
  then have ne: "arr \<noteq> []" by auto
  have k1: "k < length arr" and k3: "3 * k < length arr" using n by simp_all
  have "(25 / 100) * (real (length arr) - 1) = real k" using n by simp
  then have q1: "percentile arr 25 = Some (sort arr ! k)"
    using percentile_at_integer[OF k1] by simp
  have "(75 / 100) * (real (length arr) - 1) = real (3 * k)" using n by simp
  then have q3: "percentile arr 75 = Some (sort arr ! (3 * k))"
    using percentile_at_integer[OF k3] by simp
  have d: "length arr div 4 = k" "3 * length arr div 4 = 3 * k" using n by simp_all
  show ?thesis
    unfolding iqrSigma_nonempty[OF ne] iqrSigma_spec_def q1 q3 d by simp
qed

lemma collect_growth_from_Suc0: "collect_growth h (Suc 0) [] = valid_growth_rates h"
  using collect_growth_from_one by simp

section \<open>The IQR-based sigma\<close>

text \<open>
  Claim C3, as amended. For a non-empty list, \<open>iqrSigma\<close> is
  \<open>(q3 - q1) / 1.349\<close> where \<open>q1\<close> and \<open>q3\<close> are the elements of the ascending
  sorted list at the indices \<open>floor (0.25 * n)\<close> and \<open>floor (0.75 * n)\<close>: there is no
  interpolation, and the index is taken over \<open>n\<close>, not over \<open>n - 1\<close>. Both copies
  compute this value. It is the value built from the interpolating percentiles
  whenever \<open>n\<close> leaves remainder 1 modulo 4.
\<close>

theorem C3_iqrSigma:
  assumes "values \<noteq> []"
  shows "iqrSigma values =
           Some ((sort values ! (3 * length values div 4) - sort values ! (length values div 4)) / 1.349)
         \<and> iqrSigma_w values = iqrSigma values
         \<and> (length values mod 4 = 1 \<longrightarrow> iqrSigma values = iqrSigma_spec values)"
  using iqrSigma_nonempty[OF assms] iqrSigma_spec_agrees[of "values"]
  by (simp add: iqrSigma_w_eq)

text \<open>An instance: five values, where the quartile indices are 1 and 3.\<close>

theorem C3_iqrSigma_witness:
  "[1, 2, 3, 4, 5 :: real] \<noteq> [] \<and> length [1, 2, 3, 4, 5 :: real] mod 4 = 1
   \<and> iqrSigma [1, 2, 3, 4, 5] = Some (2 / 1.349)
   \<and> iqrSigma_w [1, 2, 3, 4, 5] = Some (2 / 1.349)
   \<and> iqrSigma [1, 2, 3, 4, 5] = iqrSigma_spec [1, 2, 3, 4, 5]"
proof -
  have ne: "[1, 2, 3, 4, 5 :: real] \<noteq> []" by simp
  have m: "length [1, 2, 3, 4, 5 :: real] mod 4 = 1" by simp
  note t = C3_iqrSigma[OF ne]
  from t have a: "iqrSigma [1, 2, 3, 4, 5] = Some (2 / 1.349)" by simp
  from t have b: "iqrSigma_w [1, 2, 3, 4, 5] = iqrSigma [1, 2, 3, 4, 5]" by blast
  from t m have c: "iqrSigma [1, 2, 3, 4, 5] = iqrSigma_spec [1, 2, 3, 4, 5]" by blast
  show ?thesis using ne m a b c by simp
qed

text \<open>
  With two values the code takes the two elements themselves as quartiles, the
  interpolating percentiles lie a quarter of the way inside: the claim as stated fails.
\<close>

theorem C3_counterexample:
  "iqrSigma [0, 1] \<noteq> iqrSigma_spec [0, 1] \<and> iqrSigma_w [0, 1] \<noteq> iqrSigma_spec [0, 1]"
  by code_simp

section \<open>The P/E estimator\<close>

text \<open>
  Claim C7. For every P/E history: with fewer than 3 entries, or fewer than 3 entries
  left in the open interval (0, 200), the estimator returns the default mean 25 and
  sigma 8 with a warning; otherwise the mean is the median of the valid entries, sigma
  is the robust sigma raised to at least 3.0, and there is a warning exactly when the
  robust sigma was below 3.0. The worker's copy returns the same record.
\<close>

theorem C7_computePEDistribution:
  "let valid = filter (\<lambda>pe. 0 < pe \<and> pe < 200) peHistory;
       d = computePEDistribution toFixed (Some peHistory)
   in computePEDistribution_w toFixed (Some peHistory) = d \<and>
      (if length peHistory < 3 \<or> length valid < 3
       then meanPE d = Some 25 \<and> sigmaPE d = Some 8 \<and> pe_warning d \<noteq> None
       else meanPE d = median valid \<and>
            (\<exists>s. robustSigma valid = Some s \<and> sigmaPE d = Some (max s 3.0) \<and>
                 (pe_warning d \<noteq> None \<longleftrightarrow> s < 3.0)))"
proof -
  let ?valid = "filter (\<lambda>pe. 0 < pe \<and> pe < 200) peHistory"
  show ?thesis
  proof (cases "length peHistory < 3 \<or> length ?valid < 3")
    case True
    then show ?thesis
      by (auto simp add: computePEDistribution_w_eq computePEDistribution_def Let_def)
  next
    case False
    then have "?valid \<noteq> []" by auto
    then obtain s where "robustSigma ?valid = Some s"
      using robustSigma_obtain by blast
    with False show ?thesis
      by (simp add: computePEDistribution_w_eq computePEDistribution_def Let_def)
  qed
qed

text \<open>Both branches at concrete histories.\<close>

theorem C7_computePEDistribution_witness:
  "meanPE (computePEDistribution toFixed_exact (Some [20, 20, 20])) = Some 20
   \<and> sigmaPE (computePEDistribution toFixed_exact (Some [20, 20, 20])) = Some 3
   \<and> pe_warning (computePEDistribution toFixed_exact (Some [20, 20, 20])) \<noteq> None
   \<and> meanPE (computePEDistribution toFixed_exact (Some [20, 250, -3, 20])) = Some 25
   \<and> sigmaPE (computePEDistribution toFixed_exact (Some [20, 250, -3, 20])) = Some 8
   \<and> pe_warning (computePEDistribution toFixed_exact (Some [20, 250, -3, 20])) \<noteq> None"
proof -
  have med: "median [20, 20, 20] = Some 20" by code_simp
  have rs: "robustSigma [20, 20, 20] = Some 0" by code_simp
  have a: "meanPE (computePEDistribution toFixed_exact (Some [20, 20, 20])) = Some 20
   \<and> sigmaPE (computePEDistribution toFixed_exact (Some [20, 20, 20])) = Some 3
   \<and> pe_warning (computePEDistribution toFixed_exact (Some [20, 20, 20])) \<noteq> None"
    using C7_computePEDistribution[of "[20, 20, 20]" toFixed_exact]
    by (simp add: Let_def med rs)
  have b: "meanPE (computePEDistribution toFixed_exact (Some [20, 250, -3, 20])) = Some 25
   \<and> sigmaPE (computePEDistribution toFixed_exact (Some [20, 250, -3, 20])) = Some 8
   \<and> pe_warning (computePEDistribution toFixed_exact (Some [20, 250, -3, 20])) \<noteq> None"
    using C7_computePEDistribution[of "[20, 250, -3, 20]" toFixed_exact]
    by (simp add: Let_def)
  from a b show ?thesis by blast
qed

section \<open>The EPS growth estimator\<close>

text \<open>
  Claim C8. On insufficient data (no history at all, an empty or one-entry history, or
  a history with fewer than 2 valid growth rates) the estimator returns the default mean
  0.10 and sigma 0.15 with a warning. The function is total on histories whose entries
  are records: no branch fails. The worker's copy returns the same record.
\<close>

theorem C8_insufficient_data:
  assumes "epsHistory = None \<or>
           (\<exists>h. epsHistory = Some h \<and> (length h < 2 \<or> length (valid_growth_rates h) < 2))"
  shows "let d = computeEPSGrowthDistribution toFixed epsHistory
         in computeEPSGrowthDistribution_w toFixed epsHistory = d \<and>
            meanGrowth d = Some 0.10 \<and> sigmaGrowth d = Some 0.15 \<and> warning d \<noteq> None"
  using assms
  by (auto simp add: computeEPSGrowthDistribution_w_eq computeEPSGrowthDistribution_def Let_def
        collect_growth_from_Suc0)

text \<open>The four kinds of insufficient input, each at a concrete value.\<close>

theorem C8_insufficient_data_witness:
  "meanGrowth (computeEPSGrowthDistribution toFixed_exact None) = Some 0.10
   \<and> sigmaGrowth (computeEPSGrowthDistribution toFixed_exact None) = Some 0.15
   \<and> warning (computeEPSGrowthDistribution toFixed_exact None) \<noteq> None
   \<and> meanGrowth (computeEPSGrowthDistribution toFixed_exact (Some [])) = Some 0.10
   \<and> sigmaGrowth (computeEPSGrowthDistribution_w toFixed_exact
        (Some [\<lparr>date = ''y1'', eps = Num 100, year = 1\<rparr>])) = Some 0.15
   \<and> length (valid_growth_rates [\<lparr>date = ''y1'', eps = Num (-5), year = 1\<rparr>,
                 \<lparr>date = ''y2'', eps = Num 110, year = 2\<rparr>,
                 \<lparr>date = ''y3'', eps = Null, year = 3\<rparr>]) < 2
   \<and> meanGrowth (computeEPSGrowthDistribution toFixed_exact
        (Some [\<lparr>date = ''y1'', eps = Num (-5), year = 1\<rparr>,
                 \<lparr>date = ''y2'', eps = Num 110, year = 2\<rparr>,
                 \<lparr>date = ''y3'', eps = Null, year = 3\<rparr>])) = Some 0.10"
proof -
  let ?h = "[\<lparr>date = ''y1'', eps = Num (-5), year = 1\<rparr>,
                 \<lparr>date = ''y2'', eps = Num 110, year = 2\<rparr>,
                 \<lparr>date = ''y3'', eps = Null, year = 3\<rparr>]"
  have r: "length (valid_growth_rates ?h) < 2"
    by (simp add: valid_growth_rates_def)
  have 1: "None = None \<or> (\<exists>h. (None :: eps_entry list option) = Some h \<and> (length h < 2 \<or> length (valid_growth_rates h) < 2))"
    by simp
  have 2: "Some [] = None \<or> (\<exists>h. Some ([] :: eps_entry list) = Some h \<and> (length h < 2 \<or> length (valid_growth_rates h) < 2))"
    by simp
  have 3: "Some [\<lparr>date = ''y1'', eps = Num 100, year = 1\<rparr>] = None \<or>
     (\<exists>h. Some [\<lparr>date = ''y1'', eps = Num 100, year = 1\<rparr>] = Some h \<and> (length h < 2 \<or> length (valid_growth_rates h) < 2))"
    by simp
  have 4: "Some ?h = None \<or> (\<exists>h. Some ?h = Some h \<and> (length h < 2 \<or> length (valid_growth_rates h) < 2))"
    using r by simp
  show ?thesis
    using C8_insufficient_data[OF 1, of toFixed_exact] C8_insufficient_data[OF 2, of toFixed_exact]
      C8_insufficient_data[OF 3, of toFixed_exact] C8_insufficient_data[OF 4, of toFixed_exact] r
    by (simp add: Let_def)
qed

text \<open>
  Claim C6. For a history of at least 2 entries with at least 2 valid growth rates, the
  collected rates are those of the consecutive pairs with positive previous EPS and
  defined current EPS, the mean is their median, sigma is their robust sigma raised to
  at least 0.10, and there is a warning exactly when the robust sigma was below 0.10.
  The worker's copy returns the same record.
\<close>

theorem C6_computeEPSGrowthDistribution:
  assumes "2 \<le> length epsHistory" and "2 \<le> length (valid_growth_rates epsHistory)"
  shows "let d = computeEPSGrowthDistribution toFixed (Some epsHistory);
             rates = valid_growth_rates epsHistory
         in computeEPSGrowthDistribution_w toFixed (Some epsHistory) = d \<and>
            growthRates d = rates \<and>
            meanGrowth d = median rates \<and>
            (\<exists>s. robustSigma rates = Some s \<and> sigmaGrowth d = Some (max s 0.10) \<and>
                 (warning d \<noteq> None \<longleftrightarrow> s < 0.10))"
proof -
  from assms(2) have "valid_growth_rates epsHistory \<noteq> []" by auto
  then obtain s where "robustSigma (valid_growth_rates epsHistory) = Some s"
    using robustSigma_obtain by blast
  with assms show ?thesis
    by (simp add: computeEPSGrowthDistribution_w_eq computeEPSGrowthDistribution_def Let_def
        collect_growth_from_Suc0)
qed

text \<open>The history 100, 110, 121 of the specification's example.\<close>

theorem C6_computeEPSGrowthDistribution_witness:
  "2 \<le> length [\<lparr>date = ''y1'', eps = Num 100, year = 1\<rparr>,
                 \<lparr>date = ''y2'', eps = Num 110, year = 2\<rparr>,
                 \<lparr>date = ''y3'', eps = Num 121, year = 3\<rparr>]
   \<and> valid_growth_rates [\<lparr>date = ''y1'', eps = Num 100, year = 1\<rparr>,
                 \<lparr>date = ''y2'', eps = Num 110, year = 2\<rparr>,
                 \<lparr>date = ''y3'', eps = Num 121, year = 3\<rparr>] = [0.10, 0.10]
   \<and> meanGrowth (computeEPSGrowthDistribution toFixed_exact
         (Some [\<lparr>date = ''y1'', eps = Num 100, year = 1\<rparr>,
                 \<lparr>date = ''y2'', eps = Num 110, year = 2\<rparr>,
                 \<lparr>date = ''y3'', eps = Num 121, year = 3\<rparr>])) = Some 0.10
   \<and> sigmaGrowth (computeEPSGrowthDistribution toFixed_exact
         (Some [\<lparr>date = ''y1'', eps = Num 100, year = 1\<rparr>,
                 \<lparr>date = ''y2'', eps = Num 110, year = 2\<rparr>,
                 \<lparr>date = ''y3'', eps = Num 121, year = 3\<rparr>])) = Some 0.10
   \<and> warning (computeEPSGrowthDistribution toFixed_exact
         (Some [\<lparr>date = ''y1'', eps = Num 100, year = 1\<rparr>,
                 \<lparr>date = ''y2'', eps = Num 110, year = 2\<rparr>,
                 \<lparr>date = ''y3'', eps = Num 121, year = 3\<rparr>])) \<noteq> None"
proof -
  let ?h = "[\<lparr>date = ''y1'', eps = Num 100, year = 1\<rparr>,
             \<lparr>date = ''y2'', eps = Num 110, year = 2\<rparr>,
             \<lparr>date = ''y3'', eps = Num 121, year = 3\<rparr>]"
  have len: "2 \<le> length ?h" by simp
  have rates: "valid_growth_rates ?h = [0.10, 0.10]"
    by (simp add: valid_growth_rates_def)
  have len2: "2 \<le> length (valid_growth_rates ?h)" unfolding rates by simp
  have med: "median [0.10, 0.10] = Some 0.10" by code_simp
  have rs: "robustSigma [0.10, 0.10] = Some 0" by code_simp
  note t = C6_computeEPSGrowthDistribution[OF len len2, of toFixed_exact, unfolded Let_def rates med rs]
  from t show ?thesis using len rates by auto
qed

section \<open>Histogram counts\<close>


lemma length_count_value [simp]: "length (count_value vmin bw numBins v bins) = length bins"
  by (simp add: count_value_def Let_def)











section \<open>The truncated-normal samplers\<close>

lemma bm_nonzero:
  "rnd i \<noteq> 0 \<Longrightarrow>
   boxMullerNormal rnd i = Some (sqrt (- 2 * ln (rnd i)) * cos (2 * pi * rnd (i + 1)), i + 2)"
  by (subst boxMullerNormal.simps) (simp add: Let_def)

lemma bm_zero: "rnd i = 0 \<Longrightarrow> boxMullerNormal rnd i = boxMullerNormal rnd (i + 1)"
  by (subst boxMullerNormal.simps) (simp add: Let_def)

lemma bm_reaches:
  "rnd j \<noteq> 0 \<Longrightarrow> i \<le> j \<Longrightarrow> \<exists>z k. boxMullerNormal rnd i = Some (z, k)"
proof (induction "j - i" arbitrary: i)
  case 0
  then have "rnd i \<noteq> 0" by simp
  then show ?case using bm_nonzero by blast
next
  case (Suc n)
  show ?case
  proof (cases "rnd i = 0")
    case True
    have "n = j - (i + 1)" "i + 1 \<le> j" using Suc.hyps(2) by simp_all
    from Suc.hyps(1)[OF this(1) Suc.prems(1) this(2)] show ?thesis
      using bm_zero[of rnd i] True by simp
  next
    case False
    then show ?thesis using bm_nonzero by blast
  qed
qed

lemma bm_total: "live rnd \<Longrightarrow> \<exists>z k. boxMullerNormal rnd i = Some (z, k)"
  unfolding live_def using bm_reaches by blast

lemma sample_loop_w_range:
  assumes "live rnd" "vmin \<le> vmax"
  shows "\<exists>v j. sample_loop_w rnd mu sigma vmin vmax a i = Some (v, j) \<and> vmin \<le> v \<and> v \<le> vmax"
proof (induction "100 - a" arbitrary: a i)
  case 0
  then have "\<not> a < 100" by simp
  then show ?case using assms(2)
    by (subst sample_loop_w.simps) simp
next
  case (Suc n)
  then have a: "a < 100" and n: "n = 100 - (a + 1)" by simp_all
  obtain z j where bm: "boxMullerNormal rnd i = Some (z, j)"
    using bm_total[OF assms(1)] by blast
  show ?case
  proof (cases "vmin \<le> mu + sigma * z \<and> mu + sigma * z \<le> vmax")
    case True
    then show ?thesis
      by (subst sample_loop_w.simps) (simp add: a bm Let_def)
  next
    case False
    from Suc.hyps(1)[OF n, of j] False show ?thesis
      by (subst sample_loop_w.simps) (auto simp add: a bm Let_def)
  qed
qed

lemma sample_loop_w_sigma0:
  assumes "live rnd"
  shows "\<exists>j. sample_loop_w rnd mu 0 vmin vmax a i = Some (max vmin (min vmax mu), j)"
proof (induction "100 - a" arbitrary: a i)
  case 0
  then have "\<not> a < 100" by simp
  then show ?case
    by (subst sample_loop_w.simps) simp
next
  case (Suc n)
  then have a: "a < 100" and n: "n = 100 - (a + 1)" by simp_all
  obtain z j where bm: "boxMullerNormal rnd i = Some (z, j)"
    using bm_total[OF assms(1)] by blast
  show ?case
  proof (cases "vmin \<le> mu \<and> mu \<le> vmax")
    case True
    then show ?thesis
      by (subst sample_loop_w.simps) (simp add: a bm Let_def)
  next
    case False
    from Suc.hyps(1)[OF n, of j] False show ?thesis
      by (subst sample_loop_w.simps) (auto simp add: a bm Let_def)
  qed
qed

text \<open>The two loops in lockstep.\<close>

lemma sample_loops_lockstep:
  assumes "live rnd" "a \<le> 100"
  shows "\<exists>v j. sample_loop_w rnd mu sigma vmin vmax a i = Some (v, j) \<and>
           (sample_loop rnd mu sigma vmin vmax a i = Some (v, j) \<or>
            v = max vmin (min vmax mu) \<and>
            (\<exists>z j'. boxMullerNormal rnd j = Some (z, j') \<and>
                    sample_loop rnd mu sigma vmin vmax a i = Some (v, j')))"
  using assms(2)
proof (induction "100 - a" arbitrary: a i)
  case 0
  then have a: "a = 100" by simp
  obtain z j where bm: "boxMullerNormal rnd i = Some (z, j)"
    using bm_total[OF assms(1)] by blast
  have w: "sample_loop_w rnd mu sigma vmin vmax a i = Some (max vmin (min vmax mu), i)"
    by (subst sample_loop_w.simps) (simp add: a)
  have s: "sample_loop rnd mu sigma vmin vmax a i = Some (max vmin (min vmax mu), j)"
    by (subst sample_loop.simps) (simp add: a bm Let_def)
  from w s bm show ?case by blast
next
  case (Suc n)
  then have a: "a < 100" and n: "n = 100 - (a + 1)" and a1: "a + 1 \<le> 100" by simp_all
  obtain z j where bm: "boxMullerNormal rnd i = Some (z, j)"
    using bm_total[OF assms(1)] by blast
  show ?case
  proof (cases "vmin \<le> mu + sigma * z \<and> mu + sigma * z \<le> vmax")
    case True
    have w: "sample_loop_w rnd mu sigma vmin vmax a i = Some (mu + sigma * z, j)"
      using True by (subst sample_loop_w.simps) (simp add: a bm Let_def)
    have s: "sample_loop rnd mu sigma vmin vmax a i = Some (mu + sigma * z, j)"
      using True a by (subst sample_loop.simps) (auto simp add: bm Let_def)
    from w s show ?thesis by blast
  next
    case False
    have w: "sample_loop_w rnd mu sigma vmin vmax a i = sample_loop_w rnd mu sigma vmin vmax (a + 1) j"
      using False by (subst sample_loop_w.simps) (auto simp add: a bm Let_def)
    have s: "sample_loop rnd mu sigma vmin vmax a i = sample_loop rnd mu sigma vmin vmax (a + 1) j"
      using False a by (subst sample_loop.simps) (auto simp add: bm Let_def)
    from Suc.hyps(1)[OF n a1, of j] show ?thesis unfolding w s .
  qed
qed

lemma samplers_agree:
  assumes "live rnd"
  shows "\<exists>v j j'. sampleTruncatedNormal_w rnd mu sigma vmin vmax i = Some (v, j) \<and>
                  sampleTruncatedNormal rnd mu sigma vmin vmax i = Some (v, j')"
  using sample_loops_lockstep[OF assms, of 0 mu sigma vmin vmax i]
  unfolding sampleTruncatedNormal_def sampleTruncatedNormal_w_def by auto


lemma live_const: "c \<noteq> 0 \<Longrightarrow> live (const_rng c)"
  by (auto simp: live_def const_rng_def)

lemma normals_no_zero:
  assumes "\<forall>k. rnd k \<noteq> 0"
  shows "map_option snd (normals rnd n i) = Some (i + 2 * n)"
proof (induction n arbitrary: i)
  case 0
  show ?case by simp
next
  case (Suc n)
  have "rnd i \<noteq> 0" using assms by simp
  from bm_nonzero[of rnd i, OF this] Suc[of "i + 2"] show ?case
    by (auto split: option.splits)
qed

lemma sample_loop_all_rejected:
  assumes "\<forall>k. rnd k \<noteq> 0" "\<not> (vmin \<le> mu \<and> mu \<le> vmax)" "a \<le> 100"
  shows "sample_loop rnd mu 0 vmin vmax a i = Some (max vmin (min vmax mu), i + 2 * (101 - a))"
  using assms(3)
proof (induction "100 - a" arbitrary: a i)
  case 0
  then have a: "a = 100" by simp
  have "rnd i \<noteq> 0" using assms(1) by simp
  from bm_nonzero[of rnd i, OF this] show ?case
    by (subst sample_loop.simps) (simp add: a Let_def)
next
  case (Suc n)
  then have a: "a < 100" and n: "n = 100 - (a + 1)" and a1: "a + 1 \<le> 100" by simp_all
  have "rnd i \<noteq> 0" using assms(1) by simp
  note bm = bm_nonzero[of rnd i, OF this]
  have "sample_loop rnd mu 0 vmin vmax a i = sample_loop rnd mu 0 vmin vmax (a + 1) (i + 2)"
    using assms(2) a by (subst sample_loop.simps) (auto simp add: bm Let_def)
  also have "\<dots> = Some (max vmin (min vmax mu), (i + 2) + 2 * (101 - (a + 1)))"
    by (rule Suc.hyps(1)[OF n a1])
  also have "(i + 2) + 2 * (101 - (a + 1)) = i + 2 * (101 - a)" using a by simp
  finally show ?case .
qed

lemma sample_loop_w_all_rejected:
  assumes "\<forall>k. rnd k \<noteq> 0" "\<not> (vmin \<le> mu \<and> mu \<le> vmax)" "a \<le> 100"
  shows "sample_loop_w rnd mu 0 vmin vmax a i = Some (max vmin (min vmax mu), i + 2 * (100 - a))"
  using assms(3)
proof (induction "100 - a" arbitrary: a i)
  case 0
  then have a: "a = 100" by simp
  show ?case
    by (subst sample_loop_w.simps) (simp add: a)
next
  case (Suc n)
  then have a: "a < 100" and n: "n = 100 - (a + 1)" and a1: "a + 1 \<le> 100" by simp_all
  have "rnd i \<noteq> 0" using assms(1) by simp
  note bm = bm_nonzero[of rnd i, OF this]
  have "sample_loop_w rnd mu 0 vmin vmax a i = sample_loop_w rnd mu 0 vmin vmax (a + 1) (i + 2)"
    using assms(2) a by (subst sample_loop_w.simps) (auto simp add: bm Let_def)
  also have "\<dots> = Some (max vmin (min vmax mu), (i + 2) + 2 * (100 - (a + 1)))"
    by (rule Suc.hyps(1)[OF n a1])
  also have "(i + 2) + 2 * (100 - (a + 1)) = i + 2 * (100 - a)" using a by simp
  finally show ?case .
qed


text \<open>
  Claim C2. For bounds with \<open>vmin \<le> vmax\<close> and every random sequence on which
  \<^verbatim>\<open>boxMullerNormal\<close> returns, \<open>sampleTruncatedNormal\<close> returns a value in
  \<open>[vmin, vmax]\<close>, in both copies and with the same value; with \<open>sigma = 0\<close> the value
  is the clamp of the mean, which is the mean itself when the mean lies in the interval.
\<close>

theorem C2_sample_in_range:
  assumes "vmin \<le> vmax" and "live rnd"
  shows "\<exists>v j j'. sampleTruncatedNormal rnd mu sigma vmin vmax i = Some (v, j) \<and>
                  sampleTruncatedNormal_w rnd mu sigma vmin vmax i = Some (v, j') \<and>
                  vmin \<le> v \<and> v \<le> vmax \<and>
                  (sigma = 0 \<longrightarrow> v = max vmin (min vmax mu) \<and>
                                (vmin \<le> mu \<and> mu \<le> vmax \<longrightarrow> v = mu))"
proof -
  obtain v j j' where w: "sampleTruncatedNormal_w rnd mu sigma vmin vmax i = Some (v, j)"
    and s: "sampleTruncatedNormal rnd mu sigma vmin vmax i = Some (v, j')"
    using samplers_agree[OF assms(2)] by blast
  have r: "vmin \<le> v \<and> v \<le> vmax"
    using sample_loop_w_range[OF assms(2,1), of mu sigma 0 i] w
    by (auto simp: sampleTruncatedNormal_w_def)
  have z: "sigma = 0 \<longrightarrow> v = max vmin (min vmax mu)"
    using sample_loop_w_sigma0[OF assms(2), of mu vmin vmax 0 i] w
    by (auto simp: sampleTruncatedNormal_w_def)
  from w s r z show ?thesis by auto
qed

text \<open>A mean inside the interval and a mean above it, with no spread.\<close>

theorem C2_sample_in_range_witness:
  "(0 :: real) \<le> 1 \<and> live (const_rng (1 / 2))
   \<and> map_option fst (sampleTruncatedNormal (const_rng (1 / 2)) (1 / 4) 0 0 1 0) = Some (1 / 4)
   \<and> map_option fst (sampleTruncatedNormal_w (const_rng (1 / 2)) (1 / 4) 0 0 1 0) = Some (1 / 4)
   \<and> map_option fst (sampleTruncatedNormal (const_rng (1 / 2)) 7 0 0 1 0) = Some 1
   \<and> map_option fst (sampleTruncatedNormal_w (const_rng (1 / 2)) 7 0 0 1 0) = Some 1"
proof -
  have h: "(0 :: real) \<le> 1" by simp
  have l: "live (const_rng (1 / 2))" by (rule live_const) simp
  from C2_sample_in_range[OF h l, of "1 / 4" 0 0] C2_sample_in_range[OF h l, of 7 0 0] h l
  show ?thesis by auto
qed


text \<open>
  What the two samplers return, in terms of the successive normal draws: the first
  accepted draw, or the fallback after exhaustion. The worker makes at most 100 draws;
  the server makes a further draw before it falls back.
\<close>

lemma normals_Suc:
  "boxMullerNormal rnd i = Some (z, j) \<Longrightarrow> normals rnd k j = Some (zs, l) \<Longrightarrow>
   normals rnd (Suc k) i = Some (z # zs, l)"
  by simp

lemma normals_length: "normals rnd k i = Some (zs, j) \<Longrightarrow> length zs = k"
  by (induction k arbitrary: i zs) (auto split: option.splits)

lemma worker_sampler_draws:
  assumes "live rnd" "a \<le> 100"
  shows "\<exists>k zs j v. k \<le> 100 - a \<and> normals rnd k i = Some (zs, j) \<and>
           sample_loop_w rnd mu sigma vmin vmax a i = Some (v, j) \<and>
           ((\<exists>zs' z. zs = zs' @ [z] \<and>
               (\<forall>y\<in>set zs'. \<not> (vmin \<le> mu + sigma * y \<and> mu + sigma * y \<le> vmax)) \<and>
               vmin \<le> mu + sigma * z \<and> mu + sigma * z \<le> vmax \<and> v = mu + sigma * z)
            \<or> (k = 100 - a \<and>
               (\<forall>y\<in>set zs. \<not> (vmin \<le> mu + sigma * y \<and> mu + sigma * y \<le> vmax)) \<and>
               v = max vmin (min vmax mu)))"
  using assms(2)
proof (induction "100 - a" arbitrary: a i)
  case 0
  then have a: "a = 100" by simp
  have "sample_loop_w rnd mu sigma vmin vmax a i = Some (max vmin (min vmax mu), i)"
    by (subst sample_loop_w.simps) (simp add: a)
  moreover have "normals rnd 0 i = Some ([], i)" by simp
  moreover have "(0 :: nat) \<le> 100 - a" "(0 :: nat) = 100 - a" "\<forall>y\<in>set []. \<not> (vmin \<le> mu + sigma * y \<and> mu + sigma * y \<le> vmax)"
    using a by simp_all
  ultimately show ?case by blast
next
  case (Suc n)
  then have a: "a < 100" and n: "n = 100 - (a + 1)" and a1: "a + 1 \<le> 100" by simp_all
  obtain z j1 where bm: "boxMullerNormal rnd i = Some (z, j1)"
    using bm_total[OF assms(1)] by blast
  show ?case
  proof (cases "vmin \<le> mu + sigma * z \<and> mu + sigma * z \<le> vmax")
    case True
    have w: "sample_loop_w rnd mu sigma vmin vmax a i = Some (mu + sigma * z, j1)"
      using True by (subst sample_loop_w.simps) (simp add: a bm Let_def)
    have nm: "normals rnd 1 i = Some ([z], j1)" using bm by simp
    have "[z] = [] @ [z]" "\<forall>y\<in>set []. \<not> (vmin \<le> mu + sigma * y \<and> mu + sigma * y \<le> vmax)"
      "(1 :: nat) \<le> 100 - a" "(1 :: nat) \<le> 101 - a"
      using a by simp_all
    with w nm True show ?thesis by blast
  next
    case False
    have w: "sample_loop_w rnd mu sigma vmin vmax a i = sample_loop_w rnd mu sigma vmin vmax (a + 1) j1"
      using False by (subst sample_loop_w.simps) (auto simp add: a bm Let_def)
    from Suc.hyps(1)[OF n a1, of j1] obtain k zs j v where
      k: "k \<le> 100 - (a + 1)" and nm: "normals rnd k j1 = Some (zs, j)"
      and s: "sample_loop_w rnd mu sigma vmin vmax (a + 1) j1 = Some (v, j)"
      and d: "(\<exists>zs' z. zs = zs' @ [z] \<and>
               (\<forall>y\<in>set zs'. \<not> (vmin \<le> mu + sigma * y \<and> mu + sigma * y \<le> vmax)) \<and>
               vmin \<le> mu + sigma * z \<and> mu + sigma * z \<le> vmax \<and> v = mu + sigma * z)
            \<or> (k = 100 - (a + 1) \<and>
               (\<forall>y\<in>set zs. \<not> (vmin \<le> mu + sigma * y \<and> mu + sigma * y \<le> vmax)) \<and>
               v = max vmin (min vmax mu))"
      by blast
    have nm': "normals rnd (Suc k) i = Some (z # zs, j)" by (rule normals_Suc[OF bm nm])
    have k': "Suc k \<le> 100 - a" using k a by simp
    from d have d': "(\<exists>zs' z'. z # zs = zs' @ [z'] \<and>
               (\<forall>y\<in>set zs'. \<not> (vmin \<le> mu + sigma * y \<and> mu + sigma * y \<le> vmax)) \<and>
               vmin \<le> mu + sigma * z' \<and> mu + sigma * z' \<le> vmax \<and> v = mu + sigma * z')
            \<or> (Suc k = 100 - a \<and>
               (\<forall>y\<in>set (z # zs). \<not> (vmin \<le> mu + sigma * y \<and> mu + sigma * y \<le> vmax)) \<and>
               v = max vmin (min vmax mu))"
    proof
      assume "\<exists>zs' z. zs = zs' @ [z] \<and>
               (\<forall>y\<in>set zs'. \<not> (vmin \<le> mu + sigma * y \<and> mu + sigma * y \<le> vmax)) \<and>
               vmin \<le> mu + sigma * z \<and> mu + sigma * z \<le> vmax \<and> v = mu + sigma * z"
      then obtain zs' z' where e: "zs = zs' @ [z']"
        "\<forall>y\<in>set zs'. \<not> (vmin \<le> mu + sigma * y \<and> mu + sigma * y \<le> vmax)"
        "vmin \<le> mu + sigma * z'" "mu + sigma * z' \<le> vmax" "v = mu + sigma * z'" by blast
      have "z # zs = (z # zs') @ [z']" using e(1) by simp
      moreover have "\<forall>y\<in>set (z # zs'). \<not> (vmin \<le> mu + sigma * y \<and> mu + sigma * y \<le> vmax)"
        using e(2) False by simp
      ultimately show ?thesis using e(3,4,5) by blast
    next
      assume "k = 100 - (a + 1) \<and>
               (\<forall>y\<in>set zs. \<not> (vmin \<le> mu + sigma * y \<and> mu + sigma * y \<le> vmax)) \<and>
               v = max vmin (min vmax mu)"
      then show ?thesis using False a by auto
    qed
    from k' nm' s d' show ?thesis unfolding w by blast
  qed
qed

lemma server_sampler_draws:
  assumes "live rnd" "a \<le> 100"
  shows "\<exists>k zs j v. k \<le> 101 - a \<and> normals rnd k i = Some (zs, j) \<and>
           sample_loop rnd mu sigma vmin vmax a i = Some (v, j) \<and>
           ((\<exists>zs' z. k \<le> 100 - a \<and> zs = zs' @ [z] \<and>
               (\<forall>y\<in>set zs'. \<not> (vmin \<le> mu + sigma * y \<and> mu + sigma * y \<le> vmax)) \<and>
               vmin \<le> mu + sigma * z \<and> mu + sigma * z \<le> vmax \<and> v = mu + sigma * z)
            \<or> (k = 101 - a \<and>
               (\<forall>y\<in>set (butlast zs). \<not> (vmin \<le> mu + sigma * y \<and> mu + sigma * y \<le> vmax)) \<and>
               v = max vmin (min vmax mu)))"
  using assms(2)
proof (induction "100 - a" arbitrary: a i)
  case 0
  then have a: "a = 100" by simp
  obtain z j1 where bm: "boxMullerNormal rnd i = Some (z, j1)"
    using bm_total[OF assms(1)] by blast
  have s: "sample_loop rnd mu sigma vmin vmax a i = Some (max vmin (min vmax mu), j1)"
    by (subst sample_loop.simps) (simp add: a bm Let_def)
  have nm: "normals rnd 1 i = Some ([z], j1)" using bm by simp
  have "(1 :: nat) \<le> 101 - a" "(1 :: nat) = 101 - a"
    "\<forall>y\<in>set (butlast [z]). \<not> (vmin \<le> mu + sigma * y \<and> mu + sigma * y \<le> vmax)"
    using a by simp_all
  with s nm show ?case by blast
next
  case (Suc n)
  then have a: "a < 100" and n: "n = 100 - (a + 1)" and a1: "a + 1 \<le> 100" by simp_all
  obtain z j1 where bm: "boxMullerNormal rnd i = Some (z, j1)"
    using bm_total[OF assms(1)] by blast
  show ?case
  proof (cases "vmin \<le> mu + sigma * z \<and> mu + sigma * z \<le> vmax")
    case True
    have w: "sample_loop rnd mu sigma vmin vmax a i = Some (mu + sigma * z, j1)"
      using True a by (subst sample_loop.simps) (auto simp add: bm Let_def)
    have nm: "normals rnd 1 i = Some ([z], j1)" using bm by simp
    have "[z] = [] @ [z]" "\<forall>y\<in>set []. \<not> (vmin \<le> mu + sigma * y \<and> mu + sigma * y \<le> vmax)"
      "(1 :: nat) \<le> 100 - a" "(1 :: nat) \<le> 101 - a"
      using a by simp_all
    with w nm True show ?thesis by blast
  next
    case False
    have w: "sample_loop rnd mu sigma vmin vmax a i = sample_loop rnd mu sigma vmin vmax (a + 1) j1"
      using False a by (subst sample_loop.simps) (auto simp add: bm Let_def)
    from Suc.hyps(1)[OF n a1, of j1] obtain k zs j v where
      k: "k \<le> 101 - (a + 1)" and nm: "normals rnd k j1 = Some (zs, j)"
      and s: "sample_loop rnd mu sigma vmin vmax (a + 1) j1 = Some (v, j)"
      and d: "(\<exists>zs' z. k \<le> 100 - (a + 1) \<and> zs = zs' @ [z] \<and>
               (\<forall>y\<in>set zs'. \<not> (vmin \<le> mu + sigma * y \<and> mu + sigma * y \<le> vmax)) \<and>
               vmin \<le> mu + sigma * z \<and> mu + sigma * z \<le> vmax \<and> v = mu + sigma * z)
            \<or> (k = 101 - (a + 1) \<and>
               (\<forall>y\<in>set (butlast zs). \<not> (vmin \<le> mu + sigma * y \<and> mu + sigma * y \<le> vmax)) \<and>
               v = max vmin (min vmax mu))"
      by blast
    have nm': "normals rnd (Suc k) i = Some (z # zs, j)" by (rule normals_Suc[OF bm nm])
    have k': "Suc k \<le> 101 - a" using k a by simp
    from d have d': "(\<exists>zs' z'. Suc k \<le> 100 - a \<and> z # zs = zs' @ [z'] \<and>
               (\<forall>y\<in>set zs'. \<not> (vmin \<le> mu + sigma * y \<and> mu + sigma * y \<le> vmax)) \<and>
               vmin \<le> mu + sigma * z' \<and> mu + sigma * z' \<le> vmax \<and> v = mu + sigma * z')
            \<or> (Suc k = 101 - a \<and>
               (\<forall>y\<in>set (butlast (z # zs)). \<not> (vmin \<le> mu + sigma * y \<and> mu + sigma * y \<le> vmax)) \<and>
               v = max vmin (min vmax mu))"
    proof
      assume "\<exists>zs' z. k \<le> 100 - (a + 1) \<and> zs = zs' @ [z] \<and>
               (\<forall>y\<in>set zs'. \<not> (vmin \<le> mu + sigma * y \<and> mu + sigma * y \<le> vmax)) \<and>
               vmin \<le> mu + sigma * z \<and> mu + sigma * z \<le> vmax \<and> v = mu + sigma * z"
      then obtain zs' z' where e: "k \<le> 100 - (a + 1)" "zs = zs' @ [z']"
        "\<forall>y\<in>set zs'. \<not> (vmin \<le> mu + sigma * y \<and> mu + sigma * y \<le> vmax)"
        "vmin \<le> mu + sigma * z'" "mu + sigma * z' \<le> vmax" "v = mu + sigma * z'" by blast
      have "z # zs = (z # zs') @ [z']" using e(2) by simp
      moreover have "\<forall>y\<in>set (z # zs'). \<not> (vmin \<le> mu + sigma * y \<and> mu + sigma * y \<le> vmax)"
        using e(3) False by simp
      moreover have "Suc k \<le> 100 - a" using e(1) a by simp
      ultimately show ?thesis using e(4,5,6) by blast
    next
      assume h: "k = 101 - (a + 1) \<and>
               (\<forall>y\<in>set (butlast zs). \<not> (vmin \<le> mu + sigma * y \<and> mu + sigma * y \<le> vmax)) \<and>
               v = max vmin (min vmax mu)"
      then have "zs \<noteq> []" using normals_length[OF nm] a by auto
      with h False a show ?thesis by auto
    qed
    from k' nm' s d' show ?thesis unfolding w by blast
  qed
qed

text \<open>
  Claim C9, at a failing input of the server's copy. With mean 0, sigma 0 and the
  interval [1, 2] every draw is rejected. On a random source that is never zero each
  call of \<^verbatim>\<open>boxMullerNormal\<close> reads two values: the server's sampler returns the
  fallback 1 at position 202, after 101 draws, where the worker's sampler returns it at
  position 200, after 100 draws.
\<close>

theorem C9_server_draws_101:
  "sampleTruncatedNormal (const_rng (1 / 2)) 0 0 1 2 0 = Some (1, 202)
   \<and> map_option snd (normals (const_rng (1 / 2)) 101 0) = Some 202
   \<and> sampleTruncatedNormal_w (const_rng (1 / 2)) 0 0 1 2 0 = Some (1, 200)
   \<and> map_option snd (normals (const_rng (1 / 2)) 100 0) = Some 200"
proof -
  have nz: "\<forall>k. const_rng (1 / 2) k \<noteq> 0" by (simp add: const_rng_def)
  have out: "\<not> ((1 :: real) \<le> 0 \<and> (0 :: real) \<le> 2)" by simp
  from sample_loop_all_rejected[OF nz out, of 0 0] sample_loop_w_all_rejected[OF nz out, of 0 0]
    normals_no_zero[OF nz, of 101 0] normals_no_zero[OF nz, of 100 0]
  show ?thesis
    by (simp add: sampleTruncatedNormal_def sampleTruncatedNormal_w_def)
qed

section \<open>The trial loop and the aggregation\<close>

lemma sampler_returns:
  assumes "live rnd"
  shows "\<exists>v j. sampleTruncatedNormal rnd mu sigma vmin vmax i = Some (v, j) \<and>
               (vmin \<le> vmax \<longrightarrow> vmin \<le> v \<and> v \<le> vmax)"
proof -
  obtain v j j' where w: "sampleTruncatedNormal_w rnd mu sigma vmin vmax i = Some (v, j)"
    and s: "sampleTruncatedNormal rnd mu sigma vmin vmax i = Some (v, j')"
    using samplers_agree[OF assms] by blast
  have "vmin \<le> vmax \<longrightarrow> vmin \<le> v \<and> v \<le> vmax"
    using sample_loop_w_range[OF assms, of vmin vmax mu sigma 0 i] w
    by (auto simp: sampleTruncatedNormal_w_def)
  with s show ?thesis by blast
qed

lemma sampler_w_returns:
  assumes "live rnd"
  shows "\<exists>v j. sampleTruncatedNormal_w rnd mu sigma vmin vmax i = Some (v, j) \<and>
               (vmin \<le> vmax \<longrightarrow> vmin \<le> v \<and> v \<le> vmax)"
proof -
  obtain v j j' where w: "sampleTruncatedNormal_w rnd mu sigma vmin vmax i = Some (v, j)"
    using samplers_agree[OF assms] by blast
  have "vmin \<le> vmax \<longrightarrow> vmin \<le> v \<and> v \<le> vmax"
    using sample_loop_w_range[OF assms, of vmin vmax mu sigma 0 i] w
    by (auto simp: sampleTruncatedNormal_w_def)
  with w show ?thesis by blast
qed

lemma trials_invariant:
  assumes "live rnd"
  shows "\<exists>rs j. trials rnd ps i acc pos = Some (rs, j) \<and>
           length rs = length acc + (numSimulations ps - i) \<and>
           (growthMin_of ps \<le> growthMax_of ps \<longrightarrow> peMin_of ps \<le> peMax_of ps \<longrightarrow>
            (\<forall>r\<in>set acc. trial_invariant ps r) \<longrightarrow> (\<forall>r\<in>set rs. trial_invariant ps r))"
proof (induction "numSimulations ps - i" arbitrary: i acc pos)
  case 0
  then have "\<not> i < numSimulations ps" by simp
  then show ?case by (subst trials.simps) simp
next
  case (Suc n)
  then have i: "i < numSimulations ps" and n: "n = numSimulations ps - (i + 1)" by simp_all
  obtain gv p1 where s1: "sampleTruncatedNormal rnd (meanGrowth_p ps) (sigmaGrowth_p ps)
        (growthMin_of ps) (growthMax_of ps) pos = Some (gv, p1)"
     and r1: "growthMin_of ps \<le> growthMax_of ps \<longrightarrow> growthMin_of ps \<le> gv \<and> gv \<le> growthMax_of ps"
    using sampler_returns[OF assms] by blast
  obtain pv p2 where s2: "sampleTruncatedNormal rnd (meanPE_p ps) (sigmaPE_p ps)
        (peMin_of ps) (peMax_of ps) p1 = Some (pv, p2)"
     and r2: "peMin_of ps \<le> peMax_of ps \<longrightarrow> peMin_of ps \<le> pv \<and> pv \<le> peMax_of ps"
    using sampler_returns[OF assms] by blast
  define t where "t = \<lparr>g = gv, peT = pv,
       epsT = do { p \<leftarrow> js_pow (1 + gv) (years ps); Some (eps0 ps * p) },
       priceT = do { e \<leftarrow> do { p \<leftarrow> js_pow (1 + gv) (years ps); Some (eps0 ps * p) }; Some (e * pv) },
       cagr = do { p \<leftarrow> do { e \<leftarrow> do { p \<leftarrow> js_pow (1 + gv) (years ps); Some (eps0 ps * p) }; Some (e * pv) };
                   q \<leftarrow> js_div p (price0 ps); y \<leftarrow> js_div 1 (years ps);
                   r \<leftarrow> js_pow q y; Some (r - 1) },
       beatsFD = js_gt (do { e \<leftarrow> do { p \<leftarrow> js_pow (1 + gv) (years ps); Some (eps0 ps * p) }; Some (e * pv) }) (fdTarget_of ps),
       isLoss = js_lt (do { e \<leftarrow> do { p \<leftarrow> js_pow (1 + gv) (years ps); Some (eps0 ps * p) }; Some (e * pv) }) (Some (price0 ps))\<rparr>"
  have step: "trials rnd ps i acc pos = trials rnd ps (i + 1) (acc @ [t]) p2"
    by (subst trials.simps) (simp add: i s1 s2 Let_def t_def)
  have inv: "growthMin_of ps \<le> growthMax_of ps \<longrightarrow> peMin_of ps \<le> peMax_of ps \<longrightarrow> trial_invariant ps t"
    using r1 r2 by (simp add: trial_invariant_def t_def)
  from Suc.hyps(1)[OF n, of "acc @ [t]" p2] inv i
  show ?case unfolding step by auto
qed

lemma trials_w_invariant:
  assumes "live rnd"
  shows "\<exists>rs j. trials_w rnd ps i acc pos = Some (rs, j) \<and>
           length rs = length acc + (numSimulations ps - i) \<and>
           (growthMin_of ps \<le> growthMax_of ps \<longrightarrow> peMin_of ps \<le> peMax_of ps \<longrightarrow>
            (\<forall>r\<in>set acc. trial_invariant ps r) \<longrightarrow> (\<forall>r\<in>set rs. trial_invariant ps r))"
proof (induction "numSimulations ps - i" arbitrary: i acc pos)
  case 0
  then have "\<not> i < numSimulations ps" by simp
  then show ?case by (subst trials_w.simps) simp
next
  case (Suc n)
  then have i: "i < numSimulations ps" and n: "n = numSimulations ps - (i + 1)" by simp_all
  obtain gv p1 where s1: "sampleTruncatedNormal_w rnd (meanGrowth_p ps) (sigmaGrowth_p ps)
        (growthMin_of ps) (growthMax_of ps) pos = Some (gv, p1)"
     and r1: "growthMin_of ps \<le> growthMax_of ps \<longrightarrow> growthMin_of ps \<le> gv \<and> gv \<le> growthMax_of ps"
    using sampler_w_returns[OF assms] by blast
  obtain pv p2 where s2: "sampleTruncatedNormal_w rnd (meanPE_p ps) (sigmaPE_p ps)
        (peMin_of ps) (peMax_of ps) p1 = Some (pv, p2)"
     and r2: "peMin_of ps \<le> peMax_of ps \<longrightarrow> peMin_of ps \<le> pv \<and> pv \<le> peMax_of ps"
    using sampler_w_returns[OF assms] by blast
  define t where "t = \<lparr>g = gv, peT = pv,
       epsT = do { p \<leftarrow> js_pow (1 + gv) (years ps); Some (eps0 ps * p) },
       priceT = do { e \<leftarrow> do { p \<leftarrow> js_pow (1 + gv) (years ps); Some (eps0 ps * p) }; Some (e * pv) },
       cagr = do { p \<leftarrow> do { e \<leftarrow> do { p \<leftarrow> js_pow (1 + gv) (years ps); Some (eps0 ps * p) }; Some (e * pv) };
                   q \<leftarrow> js_div p (price0 ps); y \<leftarrow> js_div 1 (years ps);
                   r \<leftarrow> js_pow q y; Some (r - 1) },
       beatsFD = js_gt (do { e \<leftarrow> do { p \<leftarrow> js_pow (1 + gv) (years ps); Some (eps0 ps * p) }; Some (e * pv) }) (fdTarget_of ps),
       isLoss = js_lt (do { e \<leftarrow> do { p \<leftarrow> js_pow (1 + gv) (years ps); Some (eps0 ps * p) }; Some (e * pv) }) (Some (price0 ps))\<rparr>"
  have step: "trials_w rnd ps i acc pos = trials_w rnd ps (i + 1) (acc @ [t]) p2"
    by (subst trials_w.simps) (simp add: i s1 s2 Let_def t_def)
  have inv: "growthMin_of ps \<le> growthMax_of ps \<longrightarrow> peMin_of ps \<le> peMax_of ps \<longrightarrow> trial_invariant ps t"
    using r1 r2 by (simp add: trial_invariant_def t_def)
  from Suc.hyps(1)[OF n, of "acc @ [t]" p2] inv i
  show ?case unfolding step by auto
qed

lemma runSimulation_iff:
  "runSimulation rnd ps pos = Some (res, j) \<longleftrightarrow>
     (\<exists>results. trials rnd ps 0 [] pos = Some (results, j) \<and> aggregate ps results = Some res)"
  unfolding runSimulation_def by (auto simp add: bind_eq_Some_conv)

lemma runSimulation_w_iff:
  "runSimulation_w rnd ps pos = Some (res, j) \<longleftrightarrow>
     (\<exists>results. trials_w rnd ps 0 [] pos = Some (results, j) \<and> aggregate_w ps results = Some res)"
  unfolding runSimulation_w_def by (auto simp add: bind_eq_Some_conv)

lemma aggregate_results:
  assumes "aggregate ps results = Some res"
  shows "rawResults res = Some results \<and> sampledResults res = None"
  using assms unfolding aggregate_def
  by (auto simp add: bind_eq_Some_conv Let_def)

lemma aggregate_w_results:
  assumes "aggregate_w ps results = Some res"
  shows "rawResults res = None \<and>
         sampledResults res = Some (sample_results results (max 1 (length results div 2000)) 0 [])"
  using assms unfolding aggregate_w_def
  by (auto simp add: bind_eq_Some_conv Let_def)

lemma sample_results_subset:
  "set (sample_results rs step i acc) \<subseteq> set acc \<union> set rs"
proof (induction rs step i acc rule: sample_results.induct)
  case (1 rs step i acc)
  show ?case
  proof (cases "i < length rs \<and> 0 < step")
    case True
    with "1.IH" show ?thesis
      by (subst sample_results.simps) auto
  next
    case False
    then show ?thesis by (subst sample_results.simps) auto
  qed
qed

lemma ceil_div_step:
  fixes d step :: nat
  assumes "0 < d" "0 < step"
  shows "(d + (step - 1)) div step = 1 + (d - step + (step - 1)) div step"
proof (cases "step \<le> d")
  case True
  then have "d + (step - 1) = (d - step + (step - 1)) + step" by simp
  then have "(d + (step - 1)) div step = ((d - step + (step - 1)) + step) div step" by simp
  also have "\<dots> = (d - step + (step - 1)) div step + 1"
    using assms(2) by (simp only: div_add_self2)
  finally show ?thesis by simp
next
  case False
  then have z: "d - step = 0" by simp
  have "(step - 1) div step = 0" using assms(2) by simp
  moreover have "(d + (step - 1)) div step = 1"
  proof -
    have "d + (step - 1) = (d - 1) + step" using assms by simp
    then have "(d + (step - 1)) div step = ((d - 1) + step) div step" by simp
    also have "\<dots> = (d - 1) div step + 1" using assms(2) by (simp only: div_add_self2)
    also have "(d - 1) div step = 0" using False assms by simp
    finally show ?thesis by simp
  qed
  ultimately show ?thesis using z by simp
qed

lemma sample_results_length:
  "0 < step \<Longrightarrow>
   length (sample_results rs step i acc) = length acc + (length rs - i + (step - 1)) div step"
proof (induction rs step i acc rule: sample_results.induct)
  case (1 rs step i acc)
  show ?case
  proof (cases "i < length rs \<and> 0 < step")
    case True
    then have d: "0 < length rs - i" by simp
    have e: "length rs - i - step = length rs - (i + step)" by simp
    from ceil_div_step[OF d "1.prems"] "1.IH"[OF True "1.prems"] True show ?thesis
      unfolding e by (subst sample_results.simps) simp
  next
    case False
    with "1.prems" have "length rs - i = 0" by simp
    moreover have "(step - 1) div step = 0" using "1.prems" by simp
    ultimately show ?thesis using False by (subst sample_results.simps) simp
  qed
qed

section \<open>A run on sane parameters returns\<close>

lemma at_index_bounds:
  assumes "at_index xs k = Some v"
  shows "v \<in> set xs"
  using assms by (auto simp: at_index_def split: if_splits)

lemma percentile_returns:
  assumes "xs \<noteq> []" "0 \<le> p" "p \<le> 100"
  shows "\<exists>v. percentile xs p = Some v"
proof -
  let ?n = "length (sort xs)"
  let ?idx = "(p / 100) * (real ?n - 1)"
  have n: "1 \<le> ?n" using assms(1) by (cases xs) simp_all
  have i0: "0 \<le> ?idx" using assms(2) n by simp
  have "p / 100 \<le> 1" using assms(3) by simp
  then have "?idx \<le> 1 * (real ?n - 1)" using n by (intro mult_right_mono) simp_all
  then have i1: "?idx \<le> real (?n - 1)" using n by (simp add: of_nat_diff)
  have f0: "0 \<le> \<lfloor>?idx\<rfloor>" using i0 by simp
  have "\<lfloor>?idx\<rfloor> \<le> \<lceil>?idx\<rceil>" by (rule floor_le_ceiling)
  moreover have "\<lceil>?idx\<rceil> \<le> int (?n - 1)" using i1 by (simp add: ceiling_le_iff)
  ultimately have c1: "\<lceil>?idx\<rceil> < int ?n" and f1: "\<lfloor>?idx\<rfloor> < int ?n" using n by linarith+
  have c0: "0 \<le> \<lceil>?idx\<rceil>" using f0 floor_le_ceiling[of ?idx] by linarith
  show ?thesis
    unfolding percentile_def Let_def using f0 f1 c0 c1
    by (simp add: at_index_def)
qed

lemma percentile_lower:
  assumes "percentile xs p = Some v" "\<forall>x\<in>set xs. a \<le> x"
  shows "a \<le> v"
proof -
  let ?s = "sort xs"
  let ?idx = "(p / 100) * (real (length ?s) - 1)"
  show ?thesis
  proof (cases "\<lfloor>?idx\<rfloor> = \<lceil>?idx\<rceil>")
    case True
    then have "at_index ?s \<lfloor>?idx\<rfloor> = Some v"
      using assms(1) unfolding percentile_def Let_def by simp
    from at_index_bounds[OF this] assms(2) show ?thesis by simp
  next
    case False
    then obtain lo hi where lo: "at_index ?s \<lfloor>?idx\<rfloor> = Some lo" and hi: "at_index ?s \<lceil>?idx\<rceil> = Some hi"
      and v: "v = lo + (hi - lo) * (?idx - real_of_int \<lfloor>?idx\<rfloor>)"
      using assms(1) unfolding percentile_def Let_def
      by (auto simp add: bind_eq_Some_conv)
    have l: "a \<le> lo" and h: "a \<le> hi"
      using at_index_bounds[OF lo] at_index_bounds[OF hi] assms(2) by simp_all
    define t where "t = ?idx - real_of_int \<lfloor>?idx\<rfloor>"
    have t: "0 \<le> t" "t \<le> 1" unfolding t_def by linarith+
    have v': "v = lo + (hi - lo) * t" unfolding t_def by (rule v)
    have "v = (1 - t) * lo + t * hi" unfolding v' by (simp add: algebra_simps)
    moreover have "(1 - t) * a \<le> (1 - t) * lo" using t l by (intro mult_left_mono) simp_all
    moreover have "t * a \<le> t * hi" using t h by (intro mult_left_mono) simp_all
    moreover have "(1 - t) * a + t * a = a" by (simp add: algebra_simps)
    ultimately show ?thesis by linarith
  qed
qed

lemma js_pow_returns: "0 \<le> x \<Longrightarrow> 0 < y \<Longrightarrow> \<exists>v. js_pow x y = Some v \<and> 0 \<le> v"
  by (auto simp add: js_pow_def)

lemma percentiles5_returns: "xs \<noteq> [] \<Longrightarrow> \<exists>s. percentiles5 xs = Some s"
  using percentile_returns[of xs 10] percentile_returns[of xs 25] percentile_returns[of xs 50]
    percentile_returns[of xs 75] percentile_returns[of xs 90]
  by (auto simp add: percentiles5_def js_div_def)

lemma variance_returns: "xs \<noteq> [] \<Longrightarrow> \<exists>v. variance xs = Some v"
  by (simp add: variance_def js_div_def)

lemma buildHistogram_returns: "xs \<noteq> [] \<Longrightarrow> 0 < n \<Longrightarrow> \<exists>bins. buildHistogram xs n = Some bins"
  by (simp add: buildHistogram_def Let_def)

lemma those_nums_returns: "\<forall>x\<in>set xs. x \<noteq> None \<Longrightarrow> \<exists>ys. those_nums xs = Some ys \<and> length ys = length xs"
  by (auto simp add: those_nums_def)

lemma all_some_returns: "\<forall>x\<in>set xs. x \<noteq> None \<Longrightarrow> \<exists>ys. all_some xs = Some ys \<and> length ys = length xs"
  by (induction xs) auto

lemma avg_w_eq: "avg_w xs = js_div (foldl (+) 0 xs) (real (length xs))"
  by (simp add: avg_w_def)

lemma percentiles5_w_eq: "percentiles5_w = percentiles5"
  by (rule ext) (simp add: percentiles5_w_def percentiles5_def percentile_w_eq avg_w_eq)

lemma variance_w_eq: "variance_w = variance"
  by (rule ext) (simp add: variance_w_def variance_def avg_w_eq)

lemma scenario_of_w_eq: "scenario_of_w = scenario_of"
  by (rule ext)+ (simp add: scenario_of_w_def scenario_of_def Let_def split: prod.splits)

lemma buildHistogram_w_returns: "xs \<noteq> [] \<Longrightarrow> 0 < n \<Longrightarrow> \<exists>bins. buildHistogram_w xs n = Some bins"
  by (simp add: buildHistogram_w_def Let_def)

lemma scenario_returns:
  assumes "- 1 \<le> gv" "0 \<le> pv" "0 \<le> eps0 ps" "0 < price0 ps" "0 < years ps"
  shows "scenario_of ps (a, gv) (b, pv) \<noteq> None"
proof -
  obtain pw where pw: "js_pow (1 + gv) (years ps) = Some pw" "0 \<le> pw"
    using js_pow_returns[of "1 + gv" "years ps"] assms by auto
  have q: "js_div (eps0 ps * pw * pv) (price0 ps) = Some (eps0 ps * pw * pv / price0 ps)"
    using assms by (simp add: js_div_def)
  have y: "js_div 1 (years ps) = Some (1 / years ps)" using assms by (simp add: js_div_def)
  have "0 \<le> eps0 ps * pw * pv / price0 ps" using assms pw by simp
  then obtain r where r: "js_pow (eps0 ps * pw * pv / price0 ps) (1 / years ps) = Some r"
    using js_pow_returns[of "eps0 ps * pw * pv / price0 ps" "1 / years ps"] assms by auto
  show ?thesis
    by (simp add: scenario_of_def Let_def pw q y r)
qed

text \<open>Finite trial values under sane parameters.\<close>

lemma trial_values_finite:
  assumes "trial_invariant ps r" "- 1 \<le> growthMin_of ps" "0 \<le> peMin_of ps"
    "0 \<le> eps0 ps" "0 < price0 ps" "0 < years ps"
  shows "priceT r \<noteq> None \<and> cagr r \<noteq> None \<and> js_pow (1 + g r) (years ps) \<noteq> None"
proof -
  have gr: "0 \<le> 1 + g r" and pr: "0 \<le> peT r"
    using assms(1,2,3) by (simp_all add: trial_invariant_def)
  obtain pw where pw: "js_pow (1 + g r) (years ps) = Some pw" "0 \<le> pw"
    using js_pow_returns[OF gr assms(6)] by auto
  have e: "epsT r = Some (eps0 ps * pw)" using assms(1) pw by (simp add: trial_invariant_def)
  have p: "priceT r = Some (eps0 ps * pw * peT r)" using assms(1) e by (simp add: trial_invariant_def)
  have q: "js_div (eps0 ps * pw * peT r) (price0 ps) = Some (eps0 ps * pw * peT r / price0 ps)"
    using assms by (simp add: js_div_def)
  have y: "js_div 1 (years ps) = Some (1 / years ps)" using assms by (simp add: js_div_def)
  have "0 \<le> eps0 ps * pw * peT r / price0 ps" using assms pw pr by simp
  then obtain c where c: "js_pow (eps0 ps * pw * peT r / price0 ps) (1 / years ps) = Some c"
    using js_pow_returns[of "eps0 ps * pw * peT r / price0 ps" "1 / years ps"] assms by auto
  have "cagr r = Some (c - 1)" using assms(1) p q y c by (simp add: trial_invariant_def)
  with p pw show ?thesis by simp
qed

lemma scenario_returns_ex:
  assumes "- 1 \<le> gv" "0 \<le> pv" "0 \<le> eps0 ps" "0 < price0 ps" "0 < years ps"
  shows "\<exists>s. scenario_of ps (a, gv) (b, pv) = Some s"
  using scenario_returns[OF assms] by auto

lemma aggregate_returns:
  assumes ne: "results \<noteq> []"
    and inv: "\<forall>r\<in>set results. trial_invariant ps r"
    and sane: "0 < price0 ps" "0 < years ps" "0 < numSimulations ps" "0 \<le> eps0 ps"
      "- 1 \<le> fdRate ps" "- 1 \<le> growthMin_of ps" "0 \<le> peMin_of ps"
  shows "\<exists>res. aggregate ps results = Some res"
proof -
  have fin: "\<forall>r\<in>set results. priceT r \<noteq> None \<and> cagr r \<noteq> None \<and> js_pow (1 + g r) (years ps) \<noteq> None"
    using inv trial_values_finite sane by blast
  obtain fd where fd: "fdTarget_of ps = Some fd"
    using js_pow_returns[of "1 + fdRate ps" "years ps"] sane by (auto simp: fdTarget_of_def)
  obtain prices where prices: "those_nums (map priceT results) = Some prices" "length prices = length results"
    using those_nums_returns[of "map priceT results"] fin by auto
  obtain cagrs where cagrs: "those_nums (map cagr results) = Some cagrs" "length cagrs = length results"
    using those_nums_returns[of "map cagr results"] fin by auto
  have pne: "prices \<noteq> []" "cagrs \<noteq> []" using prices cagrs ne by auto
  obtain sp where sp: "percentiles5 prices = Some sp" using percentiles5_returns pne by blast
  obtain sc where sc: "percentiles5 cagrs = Some sc" using percentiles5_returns pne by blast
  have gne: "map g results \<noteq> []" "map peT results \<noteq> []" using ne by simp_all
  have gl: "\<forall>x\<in>set (map g results). - 1 \<le> x" and pl: "\<forall>x\<in>set (map peT results). 0 \<le> x"
    using inv sane by (auto simp: trial_invariant_def)
  obtain g25 where g25: "percentile (map g results) 25 = Some g25"
    using percentile_returns[OF gne(1), of 25] by auto
  obtain g50 where g50: "percentile (map g results) 50 = Some g50"
    using percentile_returns[OF gne(1), of 50] by auto
  obtain g75 where g75: "percentile (map g results) 75 = Some g75"
    using percentile_returns[OF gne(1), of 75] by auto
  obtain pe25 where pe25: "percentile (map peT results) 25 = Some pe25"
    using percentile_returns[OF gne(2), of 25] by auto
  obtain pe50 where pe50: "percentile (map peT results) 50 = Some pe50"
    using percentile_returns[OF gne(2), of 50] by auto
  obtain pe75 where pe75: "percentile (map peT results) 75 = Some pe75"
    using percentile_returns[OF gne(2), of 75] by auto
  have gb: "- 1 \<le> g25" "- 1 \<le> g50" "- 1 \<le> g75"
    using percentile_lower[OF g25 gl] percentile_lower[OF g50 gl] percentile_lower[OF g75 gl] by simp_all
  have pb: "0 \<le> pe25" "0 \<le> pe50" "0 \<le> pe75"
    using percentile_lower[OF pe25 pl] percentile_lower[OF pe50 pl] percentile_lower[OF pe75 pl] by simp_all
  let ?scs = "concat (map (\<lambda>ge. map (\<lambda>pe. scenario_of ps ge pe)
                 [(''p25'', pe25), (''p50'', pe50), (''p75'', pe75)])
                 [(''p25'', g25), (''p50'', g50), (''p75'', g75)])"
  have "\<forall>x\<in>set ?scs. x \<noteq> None"
    using gb pb sane by (simp add: scenario_returns_ex)
  then obtain scens where scens: "all_some ?scs = Some scens"
    using all_some_returns by blast
  let ?vg = "map (\<lambda>r. do { p \<leftarrow> js_pow (1 + g r) (years ps);
                          Some (eps0 ps * p * pe50) }) results"
  have "\<forall>x\<in>set ?vg. x \<noteq> None" using fin by (auto simp: Let_def)
  then obtain vg where vg: "all_some ?vg = Some vg" "length vg = length ?vg"
    using all_some_returns by blast
  obtain pw50 where pw50: "js_pow (1 + g50) (years ps) = Some pw50"
    using js_pow_returns[of "1 + g50" "years ps"] gb sane by auto
  let ?vp = "map (\<lambda>r. do { p \<leftarrow> js_pow (1 + g50) (years ps);
                          Some (eps0 ps * p * peT r) }) results"
  have "\<forall>x\<in>set ?vp. x \<noteq> None" by (simp add: pw50 Let_def)
  then obtain vp where vp: "all_some ?vp = Some vp" "length vp = length ?vp"
    using all_some_returns by blast
  have vne: "vg \<noteq> []" "vp \<noteq> []" using vg vp ne by auto
  obtain varG where varG: "variance vg = Some varG" using variance_returns vne by blast
  obtain varP where varP: "variance vp = Some varP" using variance_returns vne by blast
  obtain h1 where h1: "buildHistogram prices 50 = Some h1"
    using buildHistogram_returns[OF pne(1), of 50] by auto
  obtain h2 where h2: "buildHistogram cagrs 50 = Some h2"
    using buildHistogram_returns[OF pne(2), of 50] by auto
  obtain h3 where h3: "buildHistogram (map g results) 30 = Some h3"
    using buildHistogram_returns[OF gne(1), of 30] by auto
  obtain h4 where h4: "buildHistogram (map peT results) 30 = Some h4"
    using buildHistogram_returns[OF gne(2), of 30] by auto
  have n0: "real (numSimulations ps) \<noteq> 0" using sane by simp
  show ?thesis
    unfolding aggregate_def using sane(3)
    by (simp add: fd prices cagrs sp sc js_div_def n0 g25 g50 g75 pe25 pe50 pe75 scens vg vp
        varG varP h1 h2 h3 h4 Let_def del: concat.simps list.map)
qed

lemma aggregate_w_returns:
  assumes ne: "results \<noteq> []"
    and inv: "\<forall>r\<in>set results. trial_invariant ps r"
    and sane: "0 < price0 ps" "0 < years ps" "0 < numSimulations ps" "0 \<le> eps0 ps"
      "- 1 \<le> fdRate ps" "- 1 \<le> growthMin_of ps" "0 \<le> peMin_of ps"
  shows "\<exists>res. aggregate_w ps results = Some res"
proof -
  have fin: "\<forall>r\<in>set results. priceT r \<noteq> None \<and> cagr r \<noteq> None \<and> js_pow (1 + g r) (years ps) \<noteq> None"
    using inv trial_values_finite sane by blast
  obtain fd where fd: "fdTarget_of ps = Some fd"
    using js_pow_returns[of "1 + fdRate ps" "years ps"] sane by (auto simp: fdTarget_of_def)
  obtain prices where prices: "those_nums (map priceT results) = Some prices" "length prices = length results"
    using those_nums_returns[of "map priceT results"] fin by auto
  obtain cagrs where cagrs: "those_nums (map cagr results) = Some cagrs" "length cagrs = length results"
    using those_nums_returns[of "map cagr results"] fin by auto
  have pne: "prices \<noteq> []" "cagrs \<noteq> []" using prices cagrs ne by auto
  obtain sp where sp: "percentiles5 prices = Some sp" using percentiles5_returns pne by blast
  obtain sc where sc: "percentiles5 cagrs = Some sc" using percentiles5_returns pne by blast
  have gne: "map g results \<noteq> []" "map peT results \<noteq> []" using ne by simp_all
  have gl: "\<forall>x\<in>set (map g results). - 1 \<le> x" and pl: "\<forall>x\<in>set (map peT results). 0 \<le> x"
    using inv sane by (auto simp: trial_invariant_def)
  obtain g25 where g25: "percentile (map g results) 25 = Some g25"
    using percentile_returns[OF gne(1), of 25] by auto
  obtain g50 where g50: "percentile (map g results) 50 = Some g50"
    using percentile_returns[OF gne(1), of 50] by auto
  obtain g75 where g75: "percentile (map g results) 75 = Some g75"
    using percentile_returns[OF gne(1), of 75] by auto
  obtain pe25 where pe25: "percentile (map peT results) 25 = Some pe25"
    using percentile_returns[OF gne(2), of 25] by auto
  obtain pe50 where pe50: "percentile (map peT results) 50 = Some pe50"
    using percentile_returns[OF gne(2), of 50] by auto
  obtain pe75 where pe75: "percentile (map peT results) 75 = Some pe75"
    using percentile_returns[OF gne(2), of 75] by auto
  have gb: "- 1 \<le> g25" "- 1 \<le> g50" "- 1 \<le> g75"
    using percentile_lower[OF g25 gl] percentile_lower[OF g50 gl] percentile_lower[OF g75 gl] by simp_all
  have pb: "0 \<le> pe25" "0 \<le> pe50" "0 \<le> pe75"
    using percentile_lower[OF pe25 pl] percentile_lower[OF pe50 pl] percentile_lower[OF pe75 pl] by simp_all
  let ?scs = "concat (map (\<lambda>ge. map (\<lambda>pe. scenario_of ps ge pe)
                 [(''p25'', pe25), (''p50'', pe50), (''p75'', pe75)])
                 [(''p25'', g25), (''p50'', g50), (''p75'', g75)])"
  have "\<forall>x\<in>set ?scs. x \<noteq> None"
    using gb pb sane by (simp add: scenario_returns_ex)
  then obtain scens where scens: "all_some ?scs = Some scens"
    using all_some_returns by blast
  let ?vg = "map (\<lambda>r. do { p \<leftarrow> js_pow (1 + g r) (years ps);
                          Some (eps0 ps * p * pe50) }) results"
  have "\<forall>x\<in>set ?vg. x \<noteq> None" using fin by (auto simp: Let_def)
  then obtain vg where vg: "all_some ?vg = Some vg" "length vg = length ?vg"
    using all_some_returns by blast
  obtain pw50 where pw50: "js_pow (1 + g50) (years ps) = Some pw50"
    using js_pow_returns[of "1 + g50" "years ps"] gb sane by auto
  let ?vp = "map (\<lambda>r. do { p \<leftarrow> js_pow (1 + g50) (years ps);
                          Some (eps0 ps * p * peT r) }) results"
  have "\<forall>x\<in>set ?vp. x \<noteq> None" by (simp add: pw50 Let_def)
  then obtain vp where vp: "all_some ?vp = Some vp" "length vp = length ?vp"
    using all_some_returns by blast
  have vne: "vg \<noteq> []" "vp \<noteq> []" using vg vp ne by auto
  obtain varG where varG: "variance vg = Some varG" using variance_returns vne by blast
  obtain varP where varP: "variance vp = Some varP" using variance_returns vne by blast
  obtain h1 where h1: "buildHistogram_w prices 50 = Some h1"
    using buildHistogram_w_returns[OF pne(1), of 50] by auto
  obtain h2 where h2: "buildHistogram_w cagrs 50 = Some h2"
    using buildHistogram_w_returns[OF pne(2), of 50] by auto
  obtain h3 where h3: "buildHistogram_w (map g results) 30 = Some h3"
    using buildHistogram_w_returns[OF gne(1), of 30] by auto
  obtain h4 where h4: "buildHistogram_w (map peT results) 30 = Some h4"
    using buildHistogram_w_returns[OF gne(2), of 30] by auto
  have n0: "real (numSimulations ps) \<noteq> 0" using sane by simp
  show ?thesis
    unfolding aggregate_w_def percentile_w_eq percentiles5_w_eq variance_w_eq scenario_of_w_eq using sane(3)
    by (simp add: fd prices cagrs sp sc js_div_def n0 g25 g50 g75 pe25 pe50 pe75 scens vg vp
        varG varP h1 h2 h3 h4 Let_def del: concat.simps list.map)
qed

lemma runSimulation_returns:
  assumes "live rnd" "0 < price0 ps" "0 < years ps" "0 < numSimulations ps" "0 \<le> eps0 ps"
      "- 1 \<le> fdRate ps" "- 1 \<le> growthMin_of ps" "growthMin_of ps \<le> growthMax_of ps"
      "0 \<le> peMin_of ps" "peMin_of ps \<le> peMax_of ps"
  shows "\<exists>res j. runSimulation rnd ps pos = Some (res, j)"
proof -
  obtain results j where tr: "trials rnd ps 0 [] pos = Some (results, j)"
    and len: "length results = numSimulations ps"
    and inv: "\<forall>r\<in>set results. trial_invariant ps r"
    using trials_invariant[OF assms(1), of ps 0 "[]" pos] assms(8,10) by auto
  have ne: "results \<noteq> []" using len assms(4) by auto
  from aggregate_returns[OF ne inv assms(2,3,4,5,6,7,9)] tr show ?thesis
    by (auto simp add: runSimulation_iff)
qed

lemma runSimulation_w_returns:
  assumes "live rnd" "0 < price0 ps" "0 < years ps" "0 < numSimulations ps" "0 \<le> eps0 ps"
      "- 1 \<le> fdRate ps" "- 1 \<le> growthMin_of ps" "growthMin_of ps \<le> growthMax_of ps"
      "0 \<le> peMin_of ps" "peMin_of ps \<le> peMax_of ps"
  shows "\<exists>res j. runSimulation_w rnd ps pos = Some (res, j)"
proof -
  obtain results j where tr: "trials_w rnd ps 0 [] pos = Some (results, j)"
    and len: "length results = numSimulations ps"
    and inv: "\<forall>r\<in>set results. trial_invariant ps r"
    using trials_w_invariant[OF assms(1), of ps 0 "[]" pos] assms(8,10) by auto
  have ne: "results \<noteq> []" using len assms(4) by auto
  from aggregate_w_returns[OF ne inv assms(2,3,4,5,6,7,9)] tr show ?thesis
    by (auto simp add: runSimulation_w_iff)
qed

section \<open>Evaluating the trial loop on the examples\<close>

lemma sample_accept_first:
  assumes "rnd i \<noteq> 0" "vmin \<le> mu" "mu \<le> vmax"
  shows "sampleTruncatedNormal rnd mu 0 vmin vmax i = Some (mu, i + 2)"
    and "sampleTruncatedNormal_w rnd mu 0 vmin vmax i = Some (mu, i + 2)"
  unfolding sampleTruncatedNormal_def sampleTruncatedNormal_w_def
  using assms bm_nonzero[of rnd i]
  by (subst sample_loop.simps, simp add: Let_def, subst sample_loop_w.simps, simp add: Let_def)

lemma const_rng_nonzero: "c \<noteq> 0 \<Longrightarrow> const_rng c k \<noteq> 0"
  by (simp add: const_rng_def)

lemma example_trials:
  "trials (const_rng (1 / 2)) example_params 0 [] 0 =
     Some ([\<lparr>g = 0.10, peT = 20, epsT = Some 5.5, priceT = Some 110, cagr = Some 0.10,
              beatsFD = True, isLoss = False\<rparr>,
            \<lparr>g = 0.10, peT = 20, epsT = Some 5.5, priceT = Some 110, cagr = Some 0.10,
              beatsFD = True, isLoss = False\<rparr>], 8)"
proof -
  have nz: "const_rng (1 / 2) k \<noteq> 0" for k by (simp add: const_rng_def)
  have s1: "sampleTruncatedNormal (const_rng (1 / 2)) (1 / 10) 0 (- (1 / 5)) (2 / 5) k = Some (1 / 10, k + 2)" for k
    using sample_accept_first(1)[of "const_rng (1 / 2)" k "- (1 / 5)" "1 / 10" "2 / 5"] nz by simp
  have s2: "sampleTruncatedNormal (const_rng (1 / 2)) 20 0 5 60 k = Some (20, k + 2)" for k
    using sample_accept_first(1)[of "const_rng (1 / 2)" k 5 20 60] nz by simp
  show ?thesis
    by (simp add: trials.simps example_params_def growthMin_of_def growthMax_of_def peMin_of_def
        peMax_of_def s1 s2 js_pow_def js_div_def js_gt_def js_lt_def fdTarget_of_def Let_def)
qed

lemma swapped_trials:
  "trials (const_rng (1 / 2)) swapped_bounds_params 0 [] 0 =
     Some ([\<lparr>g = 0.40, peT = 20, epsT = Some 7, priceT = Some 140, cagr = Some 0.40,
              beatsFD = True, isLoss = False\<rparr>], 204)"
proof -
  have nz: "const_rng (1 / 2) k \<noteq> 0" for k by (simp add: const_rng_def)
  have out: "\<not> ((2 / 5 :: real) \<le> 1 / 10 \<and> (1 / 10 :: real) \<le> - (1 / 5))" by simp
  have s1: "sampleTruncatedNormal (const_rng (1 / 2)) (1 / 10) 0 (2 / 5) (- (1 / 5)) 0 = Some (2 / 5, 202)"
    using sample_loop_all_rejected[of "const_rng (1 / 2)" "2 / 5" "1 / 10" "- (1 / 5)" 0 0] nz out
    by (simp add: sampleTruncatedNormal_def)
  have s2: "sampleTruncatedNormal (const_rng (1 / 2)) 20 0 5 60 k = Some (20, k + 2)" for k
    using sample_accept_first(1)[of "const_rng (1 / 2)" k 5 20 60] nz by simp
  show ?thesis
    by (simp add: trials.simps swapped_bounds_params_def example_params_def growthMin_of_def
        growthMax_of_def peMin_of_def
        peMax_of_def s1 s2 js_pow_def js_div_def js_gt_def js_lt_def fdTarget_of_def Let_def)
qed

lemma percentile_single: "percentile [x] p = Some x"
  by (simp add: percentile_def at_index_def Let_def)

lemma swapped_aggregate:
  "map_option rawResults (aggregate swapped_bounds_params
     [\<lparr>g = 0.40, peT = 20, epsT = Some 7, priceT = Some 140, cagr = Some 0.40,
              beatsFD = True, isLoss = False\<rparr>])
   = Some (Some [\<lparr>g = 0.40, peT = 20, epsT = Some 7, priceT = Some 140, cagr = Some 0.40,
              beatsFD = True, isLoss = False\<rparr>])"
  by (simp add: aggregate_def swapped_bounds_params_def example_params_def percentile_single
      percentiles5_def those_nums_def js_div_def js_pow_def fdTarget_of_def scenario_of_def
      variance_def buildHistogram_def Let_def growthMin_of_def growthMax_of_def peMin_of_def peMax_of_def)

lemma swapped_trials_w:
  "trials_w (const_rng (1 / 2)) swapped_bounds_params 0 [] 0 =
     Some ([\<lparr>g = 0.40, peT = 20, epsT = Some 7, priceT = Some 140, cagr = Some 0.40,
              beatsFD = True, isLoss = False\<rparr>], 202)"
proof -
  have nz: "const_rng (1 / 2) k \<noteq> 0" for k by (simp add: const_rng_def)
  have out: "\<not> ((2 / 5 :: real) \<le> 1 / 10 \<and> (1 / 10 :: real) \<le> - (1 / 5))" by simp
  have s1: "sampleTruncatedNormal_w (const_rng (1 / 2)) (1 / 10) 0 (2 / 5) (- (1 / 5)) 0 = Some (2 / 5, 200)"
    using sample_loop_w_all_rejected[of "const_rng (1 / 2)" "2 / 5" "1 / 10" "- (1 / 5)" 0 0] nz out
    by (simp add: sampleTruncatedNormal_w_def)
  have s2: "sampleTruncatedNormal_w (const_rng (1 / 2)) 20 0 5 60 k = Some (20, k + 2)" for k
    using sample_accept_first(2)[of "const_rng (1 / 2)" k 5 20 60] nz by simp
  show ?thesis
    by (simp add: trials_w.simps swapped_bounds_params_def example_params_def growthMin_of_def
        growthMax_of_def peMin_of_def
        peMax_of_def s1 s2 js_pow_def js_div_def js_gt_def js_lt_def fdTarget_of_def Let_def)
qed

section \<open>The invariant of the trials\<close>

text \<open>
  Claim C1, as amended. For every call of \<open>runSimulation\<close> with \<open>price0 > 0\<close>,
  \<open>years > 0\<close>, a positive number of simulations and bounds in order
  (\<open>growthMin \<le> growthMax\<close> and \<open>peMin \<le> peMax\<close>), and for every random sequence on
  which \<^verbatim>\<open>boxMullerNormal\<close> returns, the trial loop produces \<open>numSimulations\<close> records,
  each of which satisfies the three equations for \<open>epsT\<close>, \<open>priceT\<close> and \<open>cagr\<close> and has
  \<open>g\<close> and \<open>peT\<close> within their bounds. These are the records a returning server run
  exposes as \<^verbatim>\<open>rawResults\<close>, and the records of the worker's \<^verbatim>\<open>sampledResults\<close> are
  among those of the worker's loop.
\<close>

theorem C1_trial_invariant:
  assumes "live rnd" and "0 < price0 ps" and "0 < years ps" and "0 < numSimulations ps"
    and "growthMin_of ps \<le> growthMax_of ps" and "peMin_of ps \<le> peMax_of ps"
  shows "(\<exists>results j. trials rnd ps 0 [] pos = Some (results, j) \<and>
            length results = numSimulations ps \<and>
            (\<forall>r\<in>set results. trial_invariant ps r) \<and>
            (\<forall>res j'. runSimulation rnd ps pos = Some (res, j') \<longrightarrow> rawResults res = Some results))
       \<and> (\<exists>results j. trials_w rnd ps 0 [] pos = Some (results, j) \<and>
            length results = numSimulations ps \<and>
            (\<forall>r\<in>set results. trial_invariant ps r) \<and>
            (\<forall>res j'. runSimulation_w rnd ps pos = Some (res, j') \<longrightarrow>
               (\<exists>sampled. sampledResults res = Some sampled \<and> set sampled \<subseteq> set results)))"
proof
  obtain results j where tr: "trials rnd ps 0 [] pos = Some (results, j)"
    and len: "length results = numSimulations ps"
    and inv: "\<forall>r\<in>set results. trial_invariant ps r"
    using trials_invariant[OF assms(1), of ps 0 "[]" pos] assms(5,6) by auto
  have "rawResults res = Some results" if "runSimulation rnd ps pos = Some (res, j')" for res j'
    using that tr aggregate_results by (auto simp add: runSimulation_iff)
  with tr len inv show "\<exists>results j. trials rnd ps 0 [] pos = Some (results, j) \<and>
            length results = numSimulations ps \<and>
            (\<forall>r\<in>set results. trial_invariant ps r) \<and>
            (\<forall>res j'. runSimulation rnd ps pos = Some (res, j') \<longrightarrow> rawResults res = Some results)"
    by blast
next
  obtain results j where tr: "trials_w rnd ps 0 [] pos = Some (results, j)"
    and len: "length results = numSimulations ps"
    and inv: "\<forall>r\<in>set results. trial_invariant ps r"
    using trials_w_invariant[OF assms(1), of ps 0 "[]" pos] assms(5,6) by auto
  have "\<exists>sampled. sampledResults res = Some sampled \<and> set sampled \<subseteq> set results"
    if "runSimulation_w rnd ps pos = Some (res, j')" for res j'
    using that tr aggregate_w_results[of ps results res]
      sample_results_subset[of results "max 1 (length results div 2000)" 0 "[]"]
    by (auto simp add: runSimulation_w_iff)
  with tr len inv show "\<exists>results j. trials_w rnd ps 0 [] pos = Some (results, j) \<and>
            length results = numSimulations ps \<and>
            (\<forall>r\<in>set results. trial_invariant ps r) \<and>
            (\<forall>res j'. runSimulation_w rnd ps pos = Some (res, j') \<longrightarrow>
               (\<exists>sampled. sampledResults res = Some sampled \<and> set sampled \<subseteq> set results))"
    by blast
qed

text \<open>The example parameters: two identical trials, and the run returns.\<close>

theorem C1_trial_invariant_witness:
  "live (const_rng (1 / 2)) \<and> 0 < price0 example_params \<and> 0 < years example_params
   \<and> 0 < numSimulations example_params
   \<and> growthMin_of example_params \<le> growthMax_of example_params
   \<and> peMin_of example_params \<le> peMax_of example_params
   \<and> trials (const_rng (1 / 2)) example_params 0 [] 0 =
       Some ([\<lparr>g = 0.10, peT = 20, epsT = Some 5.5, priceT = Some 110, cagr = Some 0.10,
                beatsFD = True, isLoss = False\<rparr>,
              \<lparr>g = 0.10, peT = 20, epsT = Some 5.5, priceT = Some 110, cagr = Some 0.10,
                beatsFD = True, isLoss = False\<rparr>], 8)
   \<and> trial_invariant example_params
        \<lparr>g = 0.10, peT = 20, epsT = Some 5.5, priceT = Some 110, cagr = Some 0.10,
         beatsFD = True, isLoss = False\<rparr>
   \<and> runSimulation (const_rng (1 / 2)) example_params 0 \<noteq> None"
proof -
  have l: "live (const_rng (1 / 2))" by (rule live_const) simp
  have h: "0 < price0 example_params" "0 < years example_params" "0 < numSimulations example_params"
    "growthMin_of example_params \<le> growthMax_of example_params"
    "peMin_of example_params \<le> peMax_of example_params"
    by (simp_all add: example_params_def growthMin_of_def growthMax_of_def peMin_of_def peMax_of_def)
  have s: "0 \<le> eps0 example_params" "- 1 \<le> fdRate example_params"
    "- 1 \<le> growthMin_of example_params" "0 \<le> peMin_of example_params"
    by (simp_all add: example_params_def growthMin_of_def peMin_of_def)
  from C1_trial_invariant[OF l h, of 0] example_trials
  have "trial_invariant example_params
        \<lparr>g = 0.10, peT = 20, epsT = Some 5.5, priceT = Some 110, cagr = Some 0.10,
         beatsFD = True, isLoss = False\<rparr>"
    by auto
  moreover have "runSimulation (const_rng (1 / 2)) example_params 0 \<noteq> None"
    using runSimulation_returns[OF l h(1,2,3) s(1,2,3) h(4) s(4) h(5), of 0] by auto
  ultimately show ?thesis using l h example_trials by simp
qed

text \<open>
  With the growth bounds in the wrong order every draw is rejected and the fallback
  returns the lower bound 0.40, which is above the upper bound -0.20: the claim as
  stated, for any numeric parameters, fails.
\<close>

theorem C1_counterexample:
  "0 < price0 swapped_bounds_params \<and> 0 < years swapped_bounds_params
   \<and> 0 < numSimulations swapped_bounds_params
   \<and> map_option (map g \<circ> fst) (trials (const_rng (1 / 2)) swapped_bounds_params 0 [] 0) = Some [0.40]
   \<and> map_option (map g \<circ> fst) (trials_w (const_rng (1 / 2)) swapped_bounds_params 0 [] 0) = Some [0.40]
   \<and> map_option (map_option (map g) \<circ> rawResults \<circ> fst)
        (runSimulation (const_rng (1 / 2)) swapped_bounds_params 0) = Some (Some [0.40])
   \<and> growthMax_of swapped_bounds_params = - 0.20"
proof -
  have "runSimulation (const_rng (1 / 2)) swapped_bounds_params 0 =
        do { res \<leftarrow> aggregate swapped_bounds_params
               [\<lparr>g = 0.40, peT = 20, epsT = Some 7, priceT = Some 140, cagr = Some 0.40,
                 beatsFD = True, isLoss = False\<rparr>];
             Some (res, 204) }"
    by (simp add: runSimulation_def swapped_trials)
  then have "map_option (map_option (map g) \<circ> rawResults \<circ> fst)
        (runSimulation (const_rng (1 / 2)) swapped_bounds_params 0) = Some (Some [0.40])"
    using swapped_aggregate by (auto simp add: map_option_case split: option.splits)
  then show ?thesis
    by (simp add: swapped_trials swapped_trials_w)
       (simp add: swapped_bounds_params_def example_params_def growthMax_of_def)
qed

section \<open>The CSV handlers\<close>

text \<open>
  The server's handler writes one row per trial of the full trial list, in order; the
  worker's handler writes the rows of the downsampled list.
\<close>

lemma length_csv_lines: "length (csv_lines toFixed raw) = length raw + 1"
  by (simp add: csv_lines_def)

lemma csv_lines_nth:
  "i < length raw \<Longrightarrow> csv_lines toFixed raw ! (i + 1) = csv_row toFixed i (raw ! i)"
  by (simp add: csv_lines_def nth_enumerate_eq)

lemma simulate_csv_full:
  assumes "simulate_csv toFixed rnd ps pos = Some (CsvFile lines, j)"
  shows "\<exists>results. trials rnd ps 0 [] pos = Some (results, j) \<and>
           lines = csv_header # map (\<lambda>(i, r). csv_row toFixed i r) (enumerate 0 results)"
proof -
  from assms obtain res where r: "runSimulation rnd ps pos = Some (res, j)"
    and l: "rawResults res \<noteq> None" "lines = csv_lines toFixed (the (rawResults res))"
    by (auto simp add: simulate_csv_def bind_eq_Some_conv split: if_splits option.splits)
  from r obtain results where t: "trials rnd ps 0 [] pos = Some (results, j)"
    and a: "aggregate ps results = Some res"
    by (auto simp add: runSimulation_iff)
  from aggregate_results[OF a] l t show ?thesis
    by (simp add: csv_lines_def)
qed

lemma simulate_csv_w_sampled:
  assumes "simulate_csv_w toFixed rnd ps pos = Some (CsvFile lines, j)"
  shows "\<exists>results. trials_w rnd ps 0 [] pos = Some (results, j) \<and>
           lines = csv_lines toFixed (sample_results results (max 1 (length results div 2000)) 0 [])"
proof -
  from assms obtain res where r: "runSimulation_w rnd ps pos = Some (res, j)"
    and l: "lines = csv_lines toFixed (case sampledResults res of None \<Rightarrow> [] | Some rs \<Rightarrow> rs)"
    by (auto simp add: simulate_csv_w_def bind_eq_Some_conv Let_def split: if_splits)
  from r obtain results where t: "trials_w rnd ps 0 [] pos = Some (results, j)"
    and a: "aggregate_w ps results = Some res"
    by (auto simp add: runSimulation_w_iff)
  from aggregate_w_results[OF a] l t show ?thesis by simp
qed

lemma toFixed_exact_examples:
  "toFixed_exact (1 / 10) 6 = ''0.100000''" "toFixed_exact 20 2 = ''20.00''"
  "toFixed_exact (11 / 2) 4 = ''5.5000''" "toFixed_exact 110 2 = ''110.00''"
proof -
  have a: "nat \<lfloor>\<bar>1 / 10 :: real\<bar> * 10 ^ 6 + 1 / 2\<rfloor> = 100000" by simp
  have b: "nat \<lfloor>\<bar>20 :: real\<bar> * 10 ^ 2 + 1 / 2\<rfloor> = 2000" by simp
  have c: "nat \<lfloor>\<bar>11 / 2 :: real\<bar> * 10 ^ 4 + 1 / 2\<rfloor> = 55000" by simp
  have d: "nat \<lfloor>\<bar>110 :: real\<bar> * 10 ^ 2 + 1 / 2\<rfloor> = 11000" by simp
  show "toFixed_exact (1 / 10) 6 = ''0.100000''"
    unfolding toFixed_exact_def Let_def a by (simp add: nat_to_string.simps)
  show "toFixed_exact 20 2 = ''20.00''"
    unfolding toFixed_exact_def Let_def b by (simp add: nat_to_string.simps)
  show "toFixed_exact (11 / 2) 4 = ''5.5000''"
    unfolding toFixed_exact_def Let_def c by (simp add: nat_to_string.simps)
  show "toFixed_exact 110 2 = ''110.00''"
    unfolding toFixed_exact_def Let_def d by (simp add: nat_to_string.simps)
qed

lemma example_csv_row:
  "csv_row toFixed_exact 0 \<lparr>g = 0.10, peT = 20, epsT = Some 5.5, priceT = Some 110,
       cagr = Some 0.10, beatsFD = True, isLoss = False\<rparr>
   = ''1,0.100000,20.00,5.5000,110.00,0.100000,true,false''"
  unfolding csv_row_def fixed_def bool_to_string_def
  by (simp add: toFixed_exact_examples nat_to_string.simps)

lemma example_sane:
  "live (const_rng (1 / 2))" "0 < price0 example_params" "0 < years example_params"
  "0 < numSimulations example_params" "0 \<le> eps0 example_params"
  "- 1 \<le> fdRate example_params" "- 1 \<le> growthMin_of example_params"
  "growthMin_of example_params \<le> growthMax_of example_params"
  "0 \<le> peMin_of example_params" "peMin_of example_params \<le> peMax_of example_params"
  by (simp_all add: live_const example_params_def growthMin_of_def
      growthMax_of_def peMin_of_def peMax_of_def)

lemma example_csv:
  "simulate_csv toFixed_exact (const_rng (1 / 2)) example_params 0 =
     Some (CsvFile [csv_header,
                    ''1,0.100000,20.00,5.5000,110.00,0.100000,true,false'',
                    ''2,0.100000,20.00,5.5000,110.00,0.100000,true,false''], 8)"
proof -
  let ?t = "\<lparr>g = 0.10, peT = 20, epsT = Some 5.5, priceT = Some 110,
       cagr = Some 0.10, beatsFD = True, isLoss = False\<rparr>"
  obtain rs js where rs: "runSimulation (const_rng (1 / 2)) example_params 0 = Some (rs, js)"
    using runSimulation_returns[OF example_sane, of 0] by blast
  then obtain results where t: "trials (const_rng (1 / 2)) example_params 0 [] 0 = Some (results, js)"
    and a: "aggregate example_params results = Some rs"
    by (auto simp add: runSimulation_iff)
  from t example_trials have r: "results = [?t, ?t]" "js = 8" by simp_all
  have raw: "rawResults rs = Some [?t, ?t]" using aggregate_results[OF a] r by simp
  have row2: "csv_row toFixed_exact (Suc 0) ?t = ''2,0.100000,20.00,5.5000,110.00,0.100000,true,false''"
    unfolding csv_row_def fixed_def bool_to_string_def
    by (simp add: toFixed_exact_examples nat_to_string.simps)
  have nz: "price0 example_params \<noteq> 0" "eps0 example_params \<noteq> 0"
    by (simp_all add: example_params_def)
  have "csv_lines toFixed_exact [?t, ?t] =
          [csv_header, ''1,0.100000,20.00,5.5000,110.00,0.100000,true,false'',
                    ''2,0.100000,20.00,5.5000,110.00,0.100000,true,false'']"
    using example_csv_row row2 by (simp add: csv_lines_def enumerate_simps)
  then show ?thesis
    using rs raw r nz by (simp add: simulate_csv_def)
qed

lemma many_trials_sane:
  "live (const_rng (1 / 2))" "0 < price0 many_trials_params" "0 < years many_trials_params"
  "0 < numSimulations many_trials_params" "0 \<le> eps0 many_trials_params"
  "- 1 \<le> fdRate many_trials_params" "- 1 \<le> growthMin_of many_trials_params"
  "growthMin_of many_trials_params \<le> growthMax_of many_trials_params"
  "0 \<le> peMin_of many_trials_params" "peMin_of many_trials_params \<le> peMax_of many_trials_params"
  by (simp_all add: live_const many_trials_params_def example_params_def growthMin_of_def
      growthMax_of_def peMin_of_def peMax_of_def)

text \<open>
  Claim C4, at a failing input of the worker's handler. With 4000 simulations the
  worker's \<^verbatim>\<open>runSimulation\<close> keeps every second trial in \<^verbatim>\<open>sampledResults\<close>, and its
  CSV handler, which reads \<^verbatim>\<open>result.sampledResults\<close>, writes 2000 data rows; the server's
  handler writes the 4000 rows of the full trial set.
\<close>

theorem C4_worker_csv_rows:
  "numSimulations many_trials_params = 4000
   \<and> csv_data_rows (simulate_csv_w toFixed_exact (const_rng (1 / 2)) many_trials_params 0) = Some 2000
   \<and> csv_data_rows (simulate_csv toFixed_exact (const_rng (1 / 2)) many_trials_params 0) = Some 4000"
proof -
  let ?rnd = "const_rng (1 / 2)" and ?ps = "many_trials_params"
  have n: "numSimulations ?ps = 4000" by (simp add: many_trials_params_def)
  have nz: "price0 ?ps \<noteq> 0" "eps0 ?ps \<noteq> 0"
    by (simp_all add: many_trials_params_def example_params_def)
  obtain rw jw where rw: "runSimulation_w ?rnd ?ps 0 = Some (rw, jw)"
    using runSimulation_w_returns[OF many_trials_sane, of 0] by blast
  then obtain results where tw: "trials_w ?rnd ?ps 0 [] 0 = Some (results, jw)"
    and aw: "aggregate_w ?ps results = Some rw"
    by (auto simp add: runSimulation_w_iff)
  have lw: "length results = 4000"
    using trials_w_invariant[OF many_trials_sane(1), of ?ps 0 "[]" 0] tw n by auto
  have step: "max 1 (length results div 2000) = 2" using lw by simp
  have sw: "sampledResults rw = Some (sample_results results 2 0 [])"
    using aggregate_w_results[OF aw] unfolding step by simp
  have "length (sample_results results 2 0 []) = 2000"
    using sample_results_length[of 2 results 0 "[]"] lw by simp
  then have w: "csv_data_rows (simulate_csv_w toFixed_exact ?rnd ?ps 0) = Some 2000"
    using rw sw nz by (simp add: simulate_csv_w_def csv_data_rows_def length_csv_lines Let_def)
  obtain rs js where rs: "runSimulation ?rnd ?ps 0 = Some (rs, js)"
    using runSimulation_returns[OF many_trials_sane, of 0] by blast
  then obtain results' where ts: "trials ?rnd ?ps 0 [] 0 = Some (results', js)"
    and as: "aggregate ?ps results' = Some rs"
    by (auto simp add: runSimulation_iff)
  have ls: "length results' = 4000"
    using trials_invariant[OF many_trials_sane(1), of ?ps 0 "[]" 0] ts n by auto
  have s: "csv_data_rows (simulate_csv toFixed_exact ?rnd ?ps 0) = Some 4000"
    using rs aggregate_results[OF as] ls nz
    by (simp add: simulate_csv_def csv_data_rows_def length_csv_lines)
  from n w s show ?thesis by simp
qed

section \<open>Comparing the two copies\<close>









end
